theory Spec2Isabelle
  imports Complex_Main
begin

section \<open>Python strings and paths\<close>

text \<open>
  Python strings are modelled as \<^typ>\<open>string\<close>. \<open>startswith s p\<close> is
  \<^verbatim>\<open>s.startswith(p)\<close> and \<open>endswith s p\<close> is \<^verbatim>\<open>s.endswith(p)\<close>.
\<close>

definition startswith :: "string \<Rightarrow> string \<Rightarrow> bool" where
  "startswith s p = (take (length p) s = p)"

definition endswith :: "string \<Rightarrow> string \<Rightarrow> bool" where
  "endswith s p = (length p \<le> length s \<and> drop (length s - length p) s = p)"

section \<open>The argument extractor\<close>

text \<open>
  \<^verbatim>\<open>INTERESTING_FLAGS = {'-resultBundlePath', '-scheme', '-project'}\<close>
\<close>

definition INTERESTING_FLAGS :: "string set" where
  "INTERESTING_FLAGS = {''-resultBundlePath'', ''-scheme'', ''-project''}"

text \<open>
  The body of the loop of \<^verbatim>\<open>parse_xcodebuild_flags\<close>. The state is the pair of the
  dictionary \<^verbatim>\<open>result\<close> and the variable \<^verbatim>\<open>key\<close> (\<open>None\<close> for Python's
  \<^verbatim>\<open>None\<close>):
  \<^verbatim>\<open>
    if arg.startswith('-'):
      if arg in INTERESTING_FLAGS:
        key = arg
    elif key is not None:
      result[key] = arg
      key = None
  \<close>
\<close>

fun parse_step :: "(string \<rightharpoonup> string) \<times> string option \<Rightarrow> string
    \<Rightarrow> (string \<rightharpoonup> string) \<times> string option" where
  "parse_step (result, key) arg =
     (if startswith arg ''-'' then
        (if arg \<in> INTERESTING_FLAGS then (result, Some arg) else (result, key))
      else
        (case key of
           Some k \<Rightarrow> (result(k \<mapsto> arg), None)
         | None \<Rightarrow> (result, key)))"

definition parse_loop :: "string list \<Rightarrow> (string \<rightharpoonup> string) \<times> string option" where
  "parse_loop args = foldl parse_step (Map.empty, None) args"

definition parse_xcodebuild_flags :: "string list \<Rightarrow> (string \<rightharpoonup> string)" where
  "parse_xcodebuild_flags args = fst (parse_loop args)"

text \<open>
  A token the extractor skips without touching its state: it begins with a dash and is
  not one of the recognized flag names.
\<close>

definition skipped_flag :: "string \<Rightarrow> bool" where
  "skipped_flag t = (startswith t ''-'' \<and> t \<notin> INTERESTING_FLAGS)"

text \<open>
  The tokens that stand immediately before an occurrence of \<open>v\<close> in the token list.
\<close>

definition preceding_tokens :: "string list \<Rightarrow> string \<Rightarrow> string list" where
  "preceding_tokens args v = map fst (filter (\<lambda>p. snd p = v) (zip args (tl args)))"

text \<open>
  \<open>captured_from args k v\<close>: the token list has an occurrence of \<open>k\<close> and, after it and
  after skipped tokens only, an occurrence of \<open>v\<close>. \<open>pending_from args k\<close>: the token list
  has an occurrence of \<open>k\<close> with skipped tokens only after it.
\<close>

definition captured_from :: "string list \<Rightarrow> string \<Rightarrow> string \<Rightarrow> bool" where
  "captured_from args k v =
     (\<exists>pre mid post. args = pre @ k # mid @ v # post \<and> (\<forall>t\<in>set mid. skipped_flag t))"

definition pending_from :: "string list \<Rightarrow> string \<Rightarrow> bool" where
  "pending_from args k = (\<exists>pre mid. args = pre @ k # mid \<and> (\<forall>t\<in>set mid. skipped_flag t))"

section \<open>Errors\<close>

text \<open>
  The exceptions the program can raise. \<open>ToolError\<close> stands for a failure of the
  subprocess, \<open>OSError\<close> for a failure of the file system; \<open>SystemExit n\<close> is
  \<^verbatim>\<open>sys.exit(n)\<close>. Messages are not modelled. A computation that may raise returns
  \<open>Inl\<close> of the error.
\<close>

datatype py_error =
    KeyError | IndexError | TypeError | ValueError | AttributeError
  | ZeroDivisionError | OverflowError | LookupError | OSError | ToolError
  | SystemExit int

definition then_do :: "py_error + 'a \<Rightarrow> ('a \<Rightarrow> py_error + 'b) \<Rightarrow> py_error + 'b" where
  "then_do m f = (case m of Inl e \<Rightarrow> Inl e | Inr x \<Rightarrow> f x)"

section \<open>Paths\<close>

text \<open>\<^verbatim>\<open>s.rfind(c)\<close>: the index of the last occurrence of \<open>c\<close>, or \<open>-1\<close>.\<close>

definition rfind :: "string \<Rightarrow> char \<Rightarrow> int" where
  "rfind s c =
     (if c \<in> set s then int (length s) - 1 - int (length (takeWhile (\<lambda>x. x \<noteq> c) (rev s)))
      else - 1)"

text \<open>
  \<^verbatim>\<open>posixpath.basename\<close>:
  \<^verbatim>\<open>
    i = p.rfind('/') + 1
    return p[i:]
  \<close>
\<close>

definition basename :: "string \<Rightarrow> string" where
  "basename p = drop (nat (rfind p CHR ''/'' + 1)) p"

text \<open>
  The loop of \<^verbatim>\<open>genericpath._splitext\<close> that skips leading dots:
  \<^verbatim>\<open>
    while filenameIndex < dotIndex:
      if p[filenameIndex:filenameIndex+1] != extsep:
        return p[:dotIndex], p[dotIndex:]
      filenameIndex += 1
  \<close>
  It answers whether the loop returns the split.
\<close>

function skip_leading_dots :: "string \<Rightarrow> nat \<Rightarrow> nat \<Rightarrow> bool" where
  "skip_leading_dots p filenameIndex dotIndex =
     (if filenameIndex < dotIndex then
        (if take 1 (drop filenameIndex p) \<noteq> ''.'' then True
         else skip_leading_dots p (Suc filenameIndex) dotIndex)
      else False)"
  by pat_completeness auto
termination
  by (relation "measure (\<lambda>(p, i, d). d - i)") auto

declare skip_leading_dots.simps [simp del]

text \<open>
  \<^verbatim>\<open>posixpath.splitext\<close>:
  \<^verbatim>\<open>
    sepIndex = p.rfind(sep)
    dotIndex = p.rfind(extsep)
    if dotIndex > sepIndex:
      filenameIndex = sepIndex + 1
      while ... (above)
    return p, p[:0]
  \<close>
\<close>

definition splitext :: "string \<Rightarrow> string \<times> string" where
  "splitext p =
     (let sepIndex = rfind p CHR ''/''; dotIndex = rfind p CHR ''.'' in
      if dotIndex > sepIndex \<and> skip_leading_dots p (nat (sepIndex + 1)) (nat dotIndex)
      then (take (nat dotIndex) p, drop (nat dotIndex) p)
      else (p, []))"

text \<open>
  \<^verbatim>\<open>posixpath.join(a, b)\<close>:
  \<^verbatim>\<open>
    if b.startswith(sep): path = b
    elif not path or path.endswith(sep): path += b
    else: path += sep + b
  \<close>
\<close>

definition path_join :: "string \<Rightarrow> string \<Rightarrow> string" where
  "path_join a b =
     (if startswith b ''/'' then b
      else if a = [] \<or> endswith a ''/'' then a @ b
      else a @ ''/'' @ b)"

section \<open>The project name\<close>

text \<open>
  \<^verbatim>\<open>
    root, ext = os.path.splitext(os.path.basename(path))
    if ext == '.xcodeproj':
      return root
    raise ValueError(...)
  \<close>
\<close>

definition project_from_project_path :: "string \<Rightarrow> py_error + string" where
  "project_from_project_path path =
     (case splitext (basename path) of
        (root', ext) \<Rightarrow> if ext = ''.xcodeproj'' then Inr root' else Inl ValueError)"

section \<open>Parsed JSON\<close>

text \<open>
  The value \<^verbatim>\<open>json.loads\<close> returns: \<^verbatim>\<open>None\<close>, a bool, an int, a float, a string, a
  list, or a dict. The type \<open>'f\<close> is Python's float, whose arithmetic and printing are
  parameters of the model (see \<open>runtime\<close> below). A dict is the list of its items in
  insertion order; \<^verbatim>\<open>json.loads\<close> never yields two items with one key.
\<close>

datatype 'f json =
    JNull | JBool bool | JInt int | JFloat 'f | JStr string
  | JArr "'f json list" | JObj "(string \<times> 'f json) list"

datatype subscript = Key string | Index int

text \<open>\<^verbatim>\<open>xs[i]\<close> on a list: a negative index counts from the end.\<close>

definition list_getitem :: "'a list \<Rightarrow> int \<Rightarrow> py_error + 'a" where
  "list_getitem xs i =
     (if 0 \<le> i \<and> i < int (length xs) then Inr (xs ! nat i)
      else if i < 0 \<and> - i \<le> int (length xs) then Inr (xs ! nat (int (length xs) + i))
      else Inl IndexError)"

text \<open>
  \<^verbatim>\<open>x[k]\<close>. A dict raises \<^verbatim>\<open>KeyError\<close> for a missing key (an int is never a key of a
  parsed JSON object); a list or a string takes an int and raises \<^verbatim>\<open>IndexError\<close> out
  of range, \<^verbatim>\<open>TypeError\<close> for a string key; every other value is not subscriptable.
\<close>

fun py_getitem :: "'f json \<Rightarrow> subscript \<Rightarrow> py_error + 'f json" where
  "py_getitem (JObj kvs) (Key k) =
     (case map_of kvs k of None \<Rightarrow> Inl KeyError | Some v \<Rightarrow> Inr v)"
| "py_getitem (JObj kvs) (Index i) = Inl KeyError"
| "py_getitem (JArr xs) (Index i) = list_getitem xs i"
| "py_getitem (JArr xs) (Key k) = Inl TypeError"
| "py_getitem (JStr s) (Index i) = then_do (list_getitem s i) (\<lambda>c. Inr (JStr [c]))"
| "py_getitem (JStr s) (Key k) = Inl TypeError"
| "py_getitem JNull k = Inl TypeError"
| "py_getitem (JBool b) k = Inl TypeError"
| "py_getitem (JInt n) k = Inl TypeError"
| "py_getitem (JFloat f) k = Inl TypeError"

text \<open>A chain of subscripts \<^verbatim>\<open>x[k1][k2]...\<close>, evaluated left to right.\<close>

fun walk :: "'f json \<Rightarrow> subscript list \<Rightarrow> py_error + 'f json" where
  "walk x [] = Inr x"
| "walk x (k # ks) = then_do (py_getitem x k) (\<lambda>y. walk y ks)"

text \<open>
  \<^verbatim>\<open>x.get(k)\<close>: only a dict has the method; a missing key gives \<^verbatim>\<open>None\<close>.
\<close>

fun py_get :: "'f json \<Rightarrow> string \<Rightarrow> py_error + 'f json" where
  "py_get (JObj kvs) k = (case map_of kvs k of None \<Rightarrow> Inr JNull | Some v \<Rightarrow> Inr v)"
| "py_get x k = Inl AttributeError"

text \<open>
  \<^verbatim>\<open>for v in x\<close>: the elements of a list, the keys of a dict, the characters of a
  string; nothing else is iterable. \<^verbatim>\<open>len(x)\<close> is then the length of this list.
\<close>

fun py_iter :: "'f json \<Rightarrow> py_error + 'f json list" where
  "py_iter (JArr xs) = Inr xs"
| "py_iter (JObj kvs) = Inr (map (\<lambda>kv. JStr (fst kv)) kvs)"
| "py_iter (JStr s) = Inr (map (\<lambda>c. JStr [c]) s)"
| "py_iter x = Inl TypeError"

section \<open>Python's numbers\<close>

text \<open>
  What the model takes from the Python runtime: \<^verbatim>\<open>float(s)\<close> on a string (\<open>None\<close>
  when it raises \<^verbatim>\<open>ValueError\<close>), the conversion of an int to a float (\<open>None\<close> when it
  raises \<^verbatim>\<open>OverflowError\<close>), float addition and division, the test \<^verbatim>\<open>f == 0\<close>,
  \<^verbatim>\<open>"{:.2f}".format(f)\<close>, \<^verbatim>\<open>str(f)\<close>, \<^verbatim>\<open>int(s)\<close> on a string and
  \<^verbatim>\<open>json.loads(s)\<close> (each \<open>None\<close> when it raises \<^verbatim>\<open>ValueError\<close>).
\<close>

record 'f runtime =
  float_of_string :: "string \<Rightarrow> 'f option"
  float_of_int :: "int \<Rightarrow> 'f option"
  float_add :: "'f \<Rightarrow> 'f \<Rightarrow> 'f"
  float_div :: "'f \<Rightarrow> 'f \<Rightarrow> 'f"
  float_is_zero :: "'f \<Rightarrow> bool"
  format_2f :: "'f \<Rightarrow> string"
  float_str :: "'f \<Rightarrow> string"
  int_of_string :: "string \<Rightarrow> int option"
  json_loads :: "string \<Rightarrow> 'f json option"

text \<open>\<^verbatim>\<open>float(x)\<close> on a parsed JSON value.\<close>

fun py_float :: "'f runtime \<Rightarrow> 'f json \<Rightarrow> py_error + 'f" where
  "py_float rt (JStr s) =
     (case float_of_string rt s of None \<Rightarrow> Inl ValueError | Some f \<Rightarrow> Inr f)"
| "py_float rt (JInt n) =
     (case float_of_int rt n of None \<Rightarrow> Inl OverflowError | Some f \<Rightarrow> Inr f)"
| "py_float rt (JBool b) =
     (case float_of_int rt (if b then 1 else 0) of None \<Rightarrow> Inl OverflowError | Some f \<Rightarrow> Inr f)"
| "py_float rt (JFloat f) = Inr f"
| "py_float rt x = Inl TypeError"

text \<open>The truth value of \<^verbatim>\<open>if x:\<close>.\<close>

fun truthy :: "'f runtime \<Rightarrow> 'f json \<Rightarrow> bool" where
  "truthy rt JNull = False"
| "truthy rt (JBool b) = b"
| "truthy rt (JInt n) = (n \<noteq> 0)"
| "truthy rt (JFloat f) = (\<not> float_is_zero rt f)"
| "truthy rt (JStr s) = (s \<noteq> [])"
| "truthy rt (JArr xs) = (xs \<noteq> [])"
| "truthy rt (JObj kvs) = (kvs \<noteq> [])"

text \<open>
  The variable \<^verbatim>\<open>value_sum\<close> starts as the int \<open>0\<close> and is a float after the first
  addition.
\<close>

datatype 'f number = PInt int | PFloat 'f

text \<open>\<^verbatim>\<open>value_sum + f\<close> for a float \<open>f\<close>: an int is converted to a float first.\<close>

fun py_add :: "'f runtime \<Rightarrow> 'f number \<Rightarrow> 'f \<Rightarrow> py_error + 'f" where
  "py_add rt (PFloat a) f = Inr (float_add rt a f)"
| "py_add rt (PInt n) f =
     (case float_of_int rt n of None \<Rightarrow> Inl OverflowError | Some a \<Rightarrow> Inr (float_add rt a f))"

text \<open>
  \<^verbatim>\<open>value_sum / n\<close> for an int \<open>n\<close>: a zero divisor raises \<^verbatim>\<open>ZeroDivisionError\<close>
  whatever the dividend is; otherwise both sides are converted to float. (In the program
  the dividend is an int only when the divisor is \<open>0\<close>.)
\<close>

definition py_truediv :: "'f runtime \<Rightarrow> 'f number \<Rightarrow> int \<Rightarrow> py_error + 'f" where
  "py_truediv rt a n =
     (if n = 0 then Inl ZeroDivisionError
      else case float_of_int rt n of
        None \<Rightarrow> Inl OverflowError
      | Some d \<Rightarrow>
          (case a of
             PFloat s \<Rightarrow> Inr (float_div rt s d)
           | PInt m \<Rightarrow>
               (case float_of_int rt m of
                  None \<Rightarrow> Inl OverflowError
                | Some s \<Rightarrow> Inr (float_div rt s d))))"

section \<open>The metric aggregator\<close>

text \<open>
  The inner loop of \<^verbatim>\<open>collect_log_output\<close>:
  \<^verbatim>\<open>
    for value in values:
      value_sum += float(value.get('_value'))
  \<close>
\<close>

fun sum_values :: "'f runtime \<Rightarrow> 'f number \<Rightarrow> 'f json list \<Rightarrow> py_error + 'f number" where
  "sum_values rt value_sum [] = Inr value_sum"
| "sum_values rt value_sum (v # values) =
     then_do (py_get v ''_value'') (\<lambda>x.
     then_do (py_float rt x) (\<lambda>f.
     then_do (py_add rt value_sum f) (\<lambda>s.
     sum_values rt (PFloat s) values)))"

text \<open>
  One round of the loop over the metric groups; the result is the string appended:
  \<^verbatim>\<open>
    measurement = metric.get('measurements')
    values = measurement.get('_values')
    value_sum = 0
    for value in values: ...
    output = str(value_sum / len(values))
  \<close>
\<close>

definition metric_mean :: "'f runtime \<Rightarrow> 'f json \<Rightarrow> py_error + string" where
  "metric_mean rt metric =
     then_do (py_get metric ''measurements'') (\<lambda>measurement.
     then_do (py_get measurement ''_values'') (\<lambda>values.
     then_do (py_iter values) (\<lambda>items.
     then_do (sum_values rt (PInt 0) items) (\<lambda>value_sum.
     then_do (py_truediv rt value_sum (int (length items))) (\<lambda>mean.
     Inr (float_str rt mean))))))"

fun collect_metrics :: "'f runtime \<Rightarrow> 'f json list \<Rightarrow> 'f json list \<Rightarrow> py_error + 'f json list" where
  "collect_metrics rt [] result = Inr result"
| "collect_metrics rt (metric # metrics) result =
     then_do (metric_mean rt metric) (\<lambda>output.
     collect_metrics rt metrics (result @ [JStr output]))"

text \<open>
  \<^verbatim>\<open>collect_log_output(activity_log, result)\<close> appends to the list \<^verbatim>\<open>result\<close>; the model
  returns the extended list. The list holds Python values: the test name is whatever
  the document has under \<^verbatim>\<open>identifier._value\<close>.
\<close>

definition collect_log_output :: "'f runtime \<Rightarrow> 'f json \<Rightarrow> 'f json list \<Rightarrow> py_error + 'f json list" where
  "collect_log_output rt activity_log result =
     then_do (py_get activity_log ''identifier'') (\<lambda>test_name.
     then_do (if truthy rt test_name
              then then_do (py_getitem test_name (Key ''_value'')) (\<lambda>v. Inr (result @ [v]))
              else Inr result) (\<lambda>result1.
     then_do (py_get activity_log ''duration'') (\<lambda>duration.
     then_do (if truthy rt duration
              then then_do (py_getitem duration (Key ''_value'')) (\<lambda>d.
                   then_do (py_float rt d) (\<lambda>f. Inr (result1 @ [JStr (format_2f rt f)])))
              else Inr result1) (\<lambda>result2.
     then_do (py_get activity_log ''performanceMetrics'') (\<lambda>performance_metrics.
     case performance_metrics of
       JNull \<Rightarrow> Inr result2
     | _ \<Rightarrow>
         then_do (py_get performance_metrics ''_values'') (\<lambda>metrics.
         then_do (py_iter metrics) (\<lambda>ms.
         collect_metrics rt ms result2)))))))"

text \<open>\<^verbatim>\<open>sep.join(items)\<close>: every item must be a string.\<close>

fun join_strings :: "string \<Rightarrow> string list \<Rightarrow> string" where
  "join_strings sep [] = []"
| "join_strings sep [x] = x"
| "join_strings sep (x # y # ys) = x @ sep @ join_strings sep (y # ys)"

fun as_strings :: "'f json list \<Rightarrow> string list option" where
  "as_strings [] = Some []"
| "as_strings (JStr s # xs) = map_option ((#) s) (as_strings xs)"
| "as_strings (x # xs) = None"

definition py_join :: "string \<Rightarrow> 'f json list \<Rightarrow> py_error + string" where
  "py_join sep items =
     (case as_strings items of None \<Rightarrow> Inl TypeError | Some ss \<Rightarrow> Inr (join_strings sep ss))"

section \<open>Effects\<close>

text \<open>
  What the program does to the outside, in order: text written to stdout, the values
  given to \<^verbatim>\<open>print\<close>, messages of the logger, the call of \<^verbatim>\<open>command_trace.log\<close> (a
  module outside this file, taken as an effect that does not raise), directory listings,
  reads of a modification time, runs of the inspection tool and the file written at the
  end. A computation is the list of its events and its result; after an error nothing
  more happens.
\<close>

datatype 'f event =
    Stdout string
  | PrintList "'f json list"
  | PrintDict "(string \<times> string) list"
  | Debug string "'f json list"
  | LoggingConfig
  | CommandTrace "'f json list"
  | ListDir string
  | GetMtime string
  | RunTool "string list"
  | WriteFile string "(string \<times> string) list list"

type_synonym ('f, 'a) io = "'f event list \<times> (py_error + 'a)"

definition io_return :: "'a \<Rightarrow> ('f, 'a) io" where
  "io_return x = ([], Inr x)"

definition io_raise :: "py_error \<Rightarrow> ('f, 'a) io" where
  "io_raise e = ([], Inl e)"

definition io_lift :: "py_error + 'a \<Rightarrow> ('f, 'a) io" where
  "io_lift r = ([], r)"

definition io_emit :: "'f event \<Rightarrow> ('f, unit) io" where
  "io_emit ev = ([ev], Inr ())"

definition io_bind :: "('f, 'a) io \<Rightarrow> ('a \<Rightarrow> ('f, 'b) io) \<Rightarrow> ('f, 'b) io" where
  "io_bind m f =
     (case m of
        (es, Inl e) \<Rightarrow> (es, Inl e)
      | (es, Inr x) \<Rightarrow> (case f x of (es', r) \<Rightarrow> (es @ es', r)))"

text \<open>
  The outside world: the directory listings, the modification times (a finite float,
  ordered as the real it denotes), the home directory expansion and the output of a
  subprocess, each a function of its arguments for the time of one run.
\<close>

record env =
  listdir :: "string \<Rightarrow> py_error + string list"
  getmtime :: "string \<Rightarrow> py_error + real"
  expanduser :: "string \<Rightarrow> string"
  check_output :: "string list \<Rightarrow> py_error + string"

section \<open>The bundle locator\<close>

text \<open>
  The two compiled patterns, as the test \<^verbatim>\<open>prefix.match(entry)\<close> (a match at the start
  of the entry). \<^verbatim>\<open>re.escape(project) + '-'\<close> matches when the entry starts with the
  project name and a dash. \<^verbatim>\<open>'([^-]*)-' + re.escape(scheme) + '-'\<close> matches when, after
  the characters before the first dash, the entry goes on with a dash, the scheme and a
  dash: the group cannot give back a character, since what follows it must be a dash.
\<close>

definition project_prefix :: "string \<Rightarrow> string \<Rightarrow> bool" where
  "project_prefix project entry = startswith entry (project @ ''-'')"

definition scheme_prefix :: "string \<Rightarrow> string \<Rightarrow> bool" where
  "scheme_prefix scheme entry =
     startswith (dropWhile (\<lambda>c. c \<noteq> CHR ''-'') entry) (''-'' @ scheme @ ''-'')"

text \<open>
  The body of the loop of \<^verbatim>\<open>find_newest_matching_prefix\<close>:
  \<^verbatim>\<open>
    if prefix.match(entry):
      fq_entry = os.path.join(path, entry)
      if result is None:
        result = fq_entry
      else:
        result_mtime = os.path.getmtime(result)
        entry_mtime = os.path.getmtime(fq_entry)
        if entry_mtime > result_mtime:
          result = fq_entry
  \<close>
\<close>

definition io_getmtime :: "env \<Rightarrow> string \<Rightarrow> ('f, real) io" where
  "io_getmtime env p = io_bind (io_emit (GetMtime p)) (\<lambda>_. io_lift (getmtime env p))"

definition find_newest_step ::
    "env \<Rightarrow> string \<Rightarrow> (string \<Rightarrow> bool) \<Rightarrow> string option \<Rightarrow> string \<Rightarrow> ('f, string option) io" where
  "find_newest_step env path prefix result entry =
     (if prefix entry then
        (let fq_entry = path_join path entry in
         case result of
           None \<Rightarrow> io_return (Some fq_entry)
         | Some r \<Rightarrow>
             io_bind (io_getmtime env r) (\<lambda>result_mtime.
             io_bind (io_getmtime env fq_entry) (\<lambda>entry_mtime.
             io_return (if entry_mtime > result_mtime then Some fq_entry else Some r))))
      else io_return result)"

fun find_newest_loop ::
    "env \<Rightarrow> string \<Rightarrow> (string \<Rightarrow> bool) \<Rightarrow> string option \<Rightarrow> string list \<Rightarrow> ('f, string option) io" where
  "find_newest_loop env path prefix result [] = io_return result"
| "find_newest_loop env path prefix result (entry # entries) =
     io_bind (find_newest_step env path prefix result entry) (\<lambda>r.
     find_newest_loop env path prefix r entries)"

definition find_newest_matching_prefix ::
    "env \<Rightarrow> string \<Rightarrow> (string \<Rightarrow> bool) \<Rightarrow> ('f, string option) io" where
  "find_newest_matching_prefix env path prefix =
     io_bind (io_emit (ListDir path)) (\<lambda>_.
     io_bind (io_lift (listdir env path)) (\<lambda>entries.
     find_newest_loop env path prefix None entries))"

definition find_project_path :: "env \<Rightarrow> string \<Rightarrow> ('f, string) io" where
  "find_project_path env project =
     (let path = expanduser env ''~/Library/Developer/Xcode/DerivedData'' in
      io_bind (find_newest_matching_prefix env path (project_prefix project)) (\<lambda>result.
      case result of
        None \<Rightarrow> io_raise LookupError
      | Some r \<Rightarrow>
          io_bind (io_emit (Debug ''Using project derived data in %s'' [JStr r])) (\<lambda>_.
          io_return r)))"

definition find_xcresult_path :: "env \<Rightarrow> string \<Rightarrow> string \<Rightarrow> ('f, string) io" where
  "find_xcresult_path env project scheme =
     io_bind (find_project_path env project) (\<lambda>project_path.
     let bundle_dir = path_join project_path ''Logs/Test'' in
     io_bind (io_emit (Debug ''Logging for xcresult bundles in %s'' [JStr bundle_dir])) (\<lambda>_.
     io_bind (find_newest_matching_prefix env bundle_dir (scheme_prefix scheme)) (\<lambda>xcresult.
     case xcresult of
       None \<Rightarrow> io_raise LookupError
     | Some r \<Rightarrow>
         io_bind (io_emit (Debug ''Found xcresult: %s'' [JStr r])) (\<lambda>_.
         io_return r))))"

text \<open>
  \<^verbatim>\<open>
    root, ext = os.path.splitext(os.path.basename(path))
    if ext == '.xcodeproj':
      _logger.debug('Using project %s from project %s', root, path)
      return root
    raise ValueError(...)
  \<close>
  with the message to the logger as an event.
\<close>

definition io_project_from_project_path :: "string \<Rightarrow> ('f, string) io" where
  "io_project_from_project_path path =
     (case project_from_project_path path of
        Inl e \<Rightarrow> io_raise e
      | Inr root' \<Rightarrow>
          io_bind (io_emit (Debug ''Using project %s from project %s'' [JStr root', JStr path]))
            (\<lambda>_. io_return root'))"

section \<open>The metric reader\<close>

text \<open>
  \<^verbatim>\<open>xcresulttool(*args)\<close> and \<^verbatim>\<open>xcresulttool_json(*args)\<close>. An argument that is not a
  string makes \<^verbatim>\<open>subprocess.check_output\<close> raise \<^verbatim>\<open>TypeError\<close>.
\<close>

definition xcresulttool :: "env \<Rightarrow> 'f json list \<Rightarrow> ('f, string) io" where
  "xcresulttool env args =
     (let cmd = [JStr ''xcrun'', JStr ''xcresulttool''] @ args in
      io_bind (io_emit (CommandTrace cmd)) (\<lambda>_.
      case as_strings cmd of
        None \<Rightarrow> io_raise TypeError
      | Some c \<Rightarrow> io_bind (io_emit (RunTool c)) (\<lambda>_. io_lift (check_output env c))))"

definition xcresulttool_json :: "env \<Rightarrow> 'f runtime \<Rightarrow> 'f json list \<Rightarrow> ('f, 'f json) io" where
  "xcresulttool_json env rt args =
     io_bind (xcresulttool env (args @ [JStr ''--format'', JStr ''json''])) (\<lambda>contents.
     case json_loads rt contents of
       None \<Rightarrow> io_raise ValueError
     | Some parsed \<Rightarrow> io_return parsed)"

definition find_device_info :: "env \<Rightarrow> 'f runtime \<Rightarrow> string \<Rightarrow> ('f, 'f json) io" where
  "find_device_info env rt xcresult_path =
     io_bind (xcresulttool_json env rt [JStr ''get'', JStr ''--path'', JStr xcresult_path]) (\<lambda>parsed.
     io_lift (walk parsed [Key ''actions'', Key ''_values'', Index (- 1), Key ''runDestination'',
       Key ''targetDeviceRecord'', Key ''modelUTI'', Key ''_value'']))"

definition find_test_count :: "env \<Rightarrow> 'f runtime \<Rightarrow> string \<Rightarrow> ('f, 'f json) io" where
  "find_test_count env rt xcresult_path =
     io_bind (xcresulttool_json env rt [JStr ''get'', JStr ''--path'', JStr xcresult_path]) (\<lambda>parsed.
     io_bind (io_lift (walk parsed [Key ''metrics'', Key ''testsCount'', Key ''_value''])) (\<lambda>result.
     io_bind (io_emit (Debug ''Using subtest count: %s'' [result])) (\<lambda>_.
     io_return result)))"

definition find_test_id :: "env \<Rightarrow> 'f runtime \<Rightarrow> string \<Rightarrow> ('f, 'f json) io" where
  "find_test_id env rt xcresult_path =
     io_bind (xcresulttool_json env rt [JStr ''get'', JStr ''--path'', JStr xcresult_path]) (\<lambda>parsed.
     io_bind (io_lift (walk parsed [Key ''actions'', Key ''_values'', Index (- 1), Key ''actionResult'',
       Key ''testsRef'', Key ''id'', Key ''_value''])) (\<lambda>result.
     io_bind (io_emit (Debug ''Using test id %s'' [result])) (\<lambda>_.
     io_return result)))"

text \<open>
  The chain of subscripts of \<^verbatim>\<open>find_summary_id\<close>, from \<^verbatim>\<open>action\<close> to the summary
  identifier of the sub-test \<open>ids\<close>.
\<close>

definition summary_chain :: "int \<Rightarrow> subscript list" where
  "summary_chain ids =
     [Key ''testableSummaries'', Key ''_values'', Index 0,
      Key ''tests'', Key ''_values'', Index 0,
      Key ''subtests'', Key ''_values'', Index 0,
      Key ''subtests'', Key ''_values'', Index 0,
      Key ''subtests'', Key ''_values'', Index ids,
      Key ''summaryRef'', Key ''id'', Key ''_value'']"

text \<open>
  \<^verbatim>\<open>
    for ids in range(tests_count):
      result = action[...][ids]['summaryRef']['id']['_value']
      resultDef.append(result)
  \<close>
\<close>

fun summary_loop :: "'f json \<Rightarrow> 'f json list \<Rightarrow> int list \<Rightarrow> py_error + 'f json list" where
  "summary_loop action resultDef [] = Inr resultDef"
| "summary_loop action resultDef (ids # rest) =
     then_do (walk action (summary_chain ids)) (\<lambda>result.
     summary_loop action (resultDef @ [result]) rest)"

text \<open>\<^verbatim>\<open>range(n)\<close>: empty when \<open>n\<close> is not positive.\<close>

definition py_range :: "int \<Rightarrow> int list" where
  "py_range n = map int [0..<nat n]"

definition find_summary_id ::
    "env \<Rightarrow> 'f runtime \<Rightarrow> string \<Rightarrow> 'f json \<Rightarrow> int \<Rightarrow> ('f, 'f json list) io" where
  "find_summary_id env rt xcresult_path test_id tests_count =
     io_bind (xcresulttool_json env rt
        [JStr ''get'', JStr ''--path'', JStr xcresult_path, JStr ''--id'', test_id]) (\<lambda>parsed.
     io_bind (io_lift (walk parsed [Key ''summaries'', Key ''_values'', Index 0])) (\<lambda>action.
     io_bind (io_lift (summary_loop action [] (py_range tests_count))) (\<lambda>resultDef.
     io_bind (io_emit (PrintList resultDef)) (\<lambda>_.
     io_return resultDef))))"

definition export_log :: "env \<Rightarrow> 'f runtime \<Rightarrow> string \<Rightarrow> 'f json \<Rightarrow> ('f, string) io" where
  "export_log env rt xcresult_path summary_id =
     io_bind (xcresulttool_json env rt
        [JStr ''get'', JStr ''--path'', JStr xcresult_path, JStr ''--id'', summary_id]) (\<lambda>contents.
     io_bind (io_lift (collect_log_output rt contents [])) (\<lambda>result.
     io_lift (py_join '','' result)))"

section \<open>The main flow\<close>

text \<open>The module's docstring, which is the usage text.\<close>

definition usage_doc :: string where
  "usage_doc =
     ''Prints performance result test data from test runs captured in Apple .xcresult bundles.\<newline>'' @
     ''\<newline>'' @
     ''USAGE: xcresult_extract.py -project <path> -scheme <scheme> [other flags...]\<newline>'' @
     ''\<newline>'' @
     ''xcresult_extract.py finds and displays the log output associated with an xcodebuild\<newline>'' @
     ''invocation. Pass your entire xcodebuild command-line as arguments to this script\<newline>'' @
     ''and it will find the output associated with the most recent invocation.\<newline>''"

definition defaultValues :: "string list" where
  "defaultValues =
     [''testName'', ''Duration'', ''Disk Local Writes'', ''Clock Monotonic Time'', ''CPU Time'',
      ''Memory Physical'', ''CPU Instructions Retired'', ''Memory Peak Physical'', ''CPU Cycles'']"

text \<open>\<^verbatim>\<open>s.split(c)\<close> for a separator of one character.\<close>

fun py_split :: "char \<Rightarrow> string \<Rightarrow> string list" where
  "py_split c [] = [[]]"
| "py_split c (x # xs) =
     (if x = c then [] # py_split c xs
      else (case py_split c xs of
              [] \<Rightarrow> [[x]]
            | piece # pieces \<Rightarrow> (x # piece) # pieces))"

text \<open>
  A Python dict as the list of its items in insertion order. \<^verbatim>\<open>d[k] = v\<close> replaces the
  value of a key that is there and appends a new key; \<^verbatim>\<open>dict(pairs)\<close> stores the pairs
  one after the other.
\<close>

fun dict_setitem :: "('k \<times> 'v) list \<Rightarrow> 'k \<Rightarrow> 'v \<Rightarrow> ('k \<times> 'v) list" where
  "dict_setitem [] k v = [(k, v)]"
| "dict_setitem ((k', v') # d) k v =
     (if k' = k then (k', v) # d else (k', v') # dict_setitem d k v)"

definition py_dict :: "('k \<times> 'v) list \<Rightarrow> ('k \<times> 'v) list" where
  "py_dict pairs = foldl (\<lambda>d kv. dict_setitem d (fst kv) (snd kv)) [] pairs"

text \<open>
  \<^verbatim>\<open>
    data = log.split(",")
    createDict = zip(defaultValues, data)
    dictOfData = dict(createDict)
  \<close>
\<close>

definition dictOfData :: "string \<Rightarrow> (string \<times> string) list" where
  "dictOfData log' = py_dict (zip defaultValues (py_split CHR '','' log'))"

text \<open>
  The mapping as the specification words it: the pieces between the commas, paired
  position by position with the labels, as many pairs as the shorter of the two has.
\<close>

definition spec_label_mapping :: "string \<Rightarrow> (string \<times> string) list" where
  "spec_label_mapping s =
     (let pieces = py_split CHR '','' s in
      map (\<lambda>i. (defaultValues ! i, pieces ! i)) [0..<min (length defaultValues) (length pieces)])"

text \<open>\<^verbatim>\<open>flags[k]\<close> on the dictionary of flags.\<close>

definition flags_getitem :: "(string \<rightharpoonup> string) \<Rightarrow> string \<Rightarrow> py_error + string" where
  "flags_getitem flags k = (case flags k of None \<Rightarrow> Inl KeyError | Some v \<Rightarrow> Inr v)"

text \<open>\<^verbatim>\<open>a + b\<close> for a string \<open>a\<close>: \<open>b\<close> must be a string too.\<close>

fun str_concat :: "string \<Rightarrow> 'f json \<Rightarrow> py_error + string" where
  "str_concat a (JStr b) = Inr (a @ b)"
| "str_concat a x = Inl TypeError"

text \<open>\<^verbatim>\<open>a + b\<close> for a string \<open>b\<close>: \<open>a\<close> must be a string too.\<close>

fun concat_str :: "'f json \<Rightarrow> string \<Rightarrow> py_error + string" where
  "concat_str (JStr a) b = Inr (a @ b)"
| "concat_str x b = Inl TypeError"

text \<open>\<^verbatim>\<open>int(x)\<close> where \<open>x\<close> is known to be a string.\<close>

fun py_int :: "'f runtime \<Rightarrow> 'f json \<Rightarrow> py_error + int" where
  "py_int rt (JStr s) = (case int_of_string rt s of None \<Rightarrow> Inl ValueError | Some n \<Rightarrow> Inr n)"
| "py_int rt x = Inl TypeError"

text \<open>
  \<^verbatim>\<open>
    f = open('data.txt', 'w')
    f.write(str(data))
    f.close()
  \<close>
\<close>

definition writeDataToFile :: "(string \<times> string) list list \<Rightarrow> ('f, unit) io" where
  "writeDataToFile data = io_emit (WriteFile ''data.txt'' data)"

text \<open>
  The loop of \<^verbatim>\<open>main\<close> over the summary identifiers:
  \<^verbatim>\<open>
    log = export_log(xcresult_path, summary_id[sumID])
    device_info = find_device_info(xcresult_path)
    sys.stdout.write(device_info + "," + log + "\n")
    data = log.split(",") ...
    print(dictOfData)
    listData.append(dictOfData)
  \<close>
\<close>

fun main_loop ::
    "env \<Rightarrow> 'f runtime \<Rightarrow> string \<Rightarrow> 'f json list \<Rightarrow> (string \<times> string) list list
     \<Rightarrow> ('f, (string \<times> string) list list) io" where
  "main_loop env rt xcresult_path [] listData = io_return listData"
| "main_loop env rt xcresult_path (sumID # rest) listData =
     io_bind (export_log env rt xcresult_path sumID) (\<lambda>log'.
     io_bind (find_device_info env rt xcresult_path) (\<lambda>device_info.
     io_bind (io_lift (concat_str device_info ('','' @ log' @ ''\<newline>''))) (\<lambda>line.
     io_bind (io_emit (Stdout line)) (\<lambda>_.
     io_bind (io_emit (PrintDict (dictOfData log'))) (\<lambda>_.
     main_loop env rt xcresult_path rest (listData @ [dictOfData log']))))))"

text \<open>
  \<^verbatim>\<open>main\<close>, given \<^verbatim>\<open>sys.argv[1:]\<close>. \<^verbatim>\<open>sys.exit(1)\<close> is the error \<open>SystemExit 1\<close>.
\<close>

definition main :: "env \<Rightarrow> 'f runtime \<Rightarrow> string list \<Rightarrow> ('f, unit) io" where
  "main env rt args =
     (if args = [] then
        io_bind (io_emit (Stdout usage_doc)) (\<lambda>_. io_raise (SystemExit 1))
      else
        io_bind (io_emit LoggingConfig) (\<lambda>_.
        let flags = parse_xcodebuild_flags args in
        io_bind (io_lift (flags_getitem flags ''-project'')) (\<lambda>project_path.
        io_bind (io_project_from_project_path project_path) (\<lambda>project.
        io_bind (io_lift (flags_getitem flags ''-scheme'')) (\<lambda>scheme.
        io_bind (case flags ''-resultBundlePath'' of
                   None \<Rightarrow> find_xcresult_path env project scheme
                 | Some p \<Rightarrow> io_return p) (\<lambda>xcresult_path.
        io_bind (find_test_id env rt xcresult_path) (\<lambda>test_id.
        io_bind (find_test_count env rt xcresult_path) (\<lambda>tests_count.
        io_bind (io_lift (str_concat ''Number of Tests='' tests_count)) (\<lambda>line.
        io_bind (io_emit (Stdout (line @ ''\<newline>''))) (\<lambda>_.
        io_bind (io_lift (py_int rt tests_count)) (\<lambda>n.
        io_bind (find_summary_id env rt xcresult_path test_id n) (\<lambda>summary_id.
        io_bind (main_loop env rt xcresult_path summary_id []) (\<lambda>listData.
        writeDataToFile listData)))))))))))))"

text \<open>
  The exit status of the process: \<open>0\<close> after a normal return, the code of
  \<^verbatim>\<open>sys.exit\<close>, and \<open>1\<close> after any other uncaught exception.
\<close>

fun exit_status :: "py_error + unit \<Rightarrow> int" where
  "exit_status (Inr u) = 0"
| "exit_status (Inl (SystemExit n)) = n"
| "exit_status (Inl e) = 1"

section \<open>An example run\<close>

text \<open>
  Documents of the shape the inspection tool prints: a value under \<^verbatim>\<open>_value\<close>, a list
  under \<^verbatim>\<open>_values\<close>.
\<close>

definition json_value :: "'f json \<Rightarrow> 'f json" where
  "json_value v = JObj [(''_value'', v)]"

definition json_values :: "'f json list \<Rightarrow> 'f json" where
  "json_values vs = JObj [(''_values'', JArr vs)]"

text \<open>The description of a bundle that reports three tests.\<close>

definition example_bundle_doc :: "rat json" where
  "example_bundle_doc =
     JObj [(''actions'', json_values
              [JObj [(''runDestination'', JObj [(''targetDeviceRecord'',
                        JObj [(''modelUTI'', json_value (JStr ''com.apple.iphone-simulator''))])]),
                     (''actionResult'', JObj [(''testsRef'',
                        JObj [(''id'', json_value (JStr ''tests-id''))])])]]),
           (''metrics'', JObj [(''testsCount'', json_value (JStr ''3''))])]"

text \<open>
  The document of the tests: a test with its summary identifier, a suite with its tests,
  and the nesting above the suites that \<^verbatim>\<open>find_summary_id\<close> walks through.
\<close>

definition example_summary :: "string \<Rightarrow> rat json" where
  "example_summary s = JObj [(''summaryRef'', JObj [(''id'', json_value (JStr s))])]"

definition example_suite :: "rat json list \<Rightarrow> rat json" where
  "example_suite tests = JObj [(''subtests'', json_values tests)]"

definition example_action :: "rat json list \<Rightarrow> rat json" where
  "example_action suites =
     JObj [(''testableSummaries'', json_values
       [JObj [(''tests'', json_values [example_suite [example_suite suites]])]])]"

definition example_tests_doc :: "rat json list \<Rightarrow> rat json" where
  "example_tests_doc suites = JObj [(''summaries'', json_values [example_action suites])]"

definition one_suite :: "rat json list" where
  "one_suite =
     [example_suite [example_summary ''id0'', example_summary ''id1'', example_summary ''id2'']]"

definition two_suites :: "rat json list" where
  "two_suites =
     [example_suite [example_summary ''id0'', example_summary ''id1''],
      example_suite [example_summary ''id2'']]"

text \<open>An activity log: a metric group with its measurement values, and the document.\<close>

definition example_group :: "string list \<Rightarrow> rat json" where
  "example_group vs = JObj [(''measurements'', json_values (map (\<lambda>v. json_value (JStr v)) vs))]"

definition example_log_doc :: "rat json list \<Rightarrow> rat json" where
  "example_log_doc groups =
     JObj [(''identifier'', json_value (JStr ''PerfTests/testStartup()'')),
           (''duration'', json_value (JStr ''0.5'')),
           (''performanceMetrics'', json_values groups)]"

text \<open>
  A runtime for the example, with rational numbers in the place of floats. It knows the
  few strings and numbers of the example; the texts the tool prints are stood for by
  their names.
\<close>

definition example_runtime :: "rat runtime" where
  "example_runtime =
     \<lparr>float_of_string = (\<lambda>s.
        if s = ''1.0'' then Some 1 else if s = ''2.0'' then Some 2
        else if s = ''3.0'' then Some 3 else if s = ''0.5'' then Some (1 / 2) else None),
      float_of_int = (\<lambda>n. Some (of_int n)),
      float_add = (\<lambda>a b. a + b),
      float_div = (\<lambda>a b. a / b),
      float_is_zero = (\<lambda>a. a = 0),
      format_2f = (\<lambda>a. if a = 1 / 2 then ''0.50'' else ''?''),
      float_str = (\<lambda>a. if a = 2 then ''2.0'' else if a = 3 then ''3.0'' else ''?''),
      int_of_string = (\<lambda>s. if s = ''3'' then Some 3 else None),
      json_loads = (\<lambda>s.
        if s = ''bundle'' then Some example_bundle_doc
        else if s = ''tests-one'' then Some (example_tests_doc one_suite)
        else if s = ''tests-two'' then Some (example_tests_doc two_suites)
        else if s = ''log''
        then Some (example_log_doc [example_group [''1.0'', ''2.0'', ''3.0''], example_group [''3.0'']])
        else if s = ''log-empty''
        then Some (example_log_doc [example_group [''1.0'', ''2.0'', ''3.0''], example_group []])
        else None)\<rparr>"

definition tool_cmd :: "string \<Rightarrow> string list \<Rightarrow> string list" where
  "tool_cmd path extra =
     [''xcrun'', ''xcresulttool'', ''get'', ''--path'', path] @ extra @ [''--format'', ''json'']"

definition example_tool :: "string list \<Rightarrow> py_error + string" where
  "example_tool cmd =
     (if cmd = tool_cmd ''/dd/one.xcresult'' [] \<or> cmd = tool_cmd ''/dd/two.xcresult'' []
      then Inr ''bundle''
      else if cmd = tool_cmd ''/dd/one.xcresult'' [''--id'', ''tests-id''] then Inr ''tests-one''
      else if cmd = tool_cmd ''/dd/two.xcresult'' [''--id'', ''tests-id''] then Inr ''tests-two''
      else if cmd = tool_cmd ''/dd/one.xcresult'' [''--id'', ''id0''] then Inr ''log''
      else if cmd = tool_cmd ''/dd/one.xcresult'' [''--id'', ''id1''] then Inr ''log-empty''
      else Inl ToolError)"

text \<open>
  A small file system: two project directories, and three result bundles under the
  newer one.
\<close>

definition example_env :: env where
  "example_env =
     \<lparr>listdir = (\<lambda>p.
        if p = ''/dd'' then Inr [''Client-aaa'', ''Client-bbb'']
        else if p = ''/dd/Client-bbb/Logs/Test''
        then Inr [''Test-Client-1.xcresult'', ''Run-Other-3.xcresult'', ''Test-Client-2.xcresult'']
        else Inl OSError),
      getmtime = (\<lambda>p.
        if p = ''/dd/Client-aaa'' then Inr 1
        else if p = ''/dd/Client-bbb'' then Inr 2
        else if p = ''/dd/Client-bbb/Logs/Test/Test-Client-1.xcresult'' then Inr 3
        else if p = ''/dd/Client-bbb/Logs/Test/Test-Client-2.xcresult'' then Inr 4
        else if p = ''/dd/Client-bbb/Logs/Test/Run-Other-3.xcresult'' then Inr 5
        else Inl OSError),
      expanduser = (\<lambda>p. if p = ''~/Library/Developer/Xcode/DerivedData'' then ''/dd'' else p),
      check_output = example_tool\<rparr>"

definition example_mtime :: "string \<Rightarrow> real" where
  "example_mtime p = (case getmtime example_env p of Inr t \<Rightarrow> t | Inl e \<Rightarrow> 0)"

section \<open>Properties of the argument extractor\<close>

lemma parse_loop_snoc: "parse_loop (args @ [a]) = parse_step (parse_loop args) a"
  by (simp add: parse_loop_def)

lemma interesting_dash: "k \<in> INTERESTING_FLAGS \<Longrightarrow> startswith k ''-''"
  by (auto simp: INTERESTING_FLAGS_def startswith_def)

lemma captured_from_snoc:
  assumes "captured_from args k v"
  shows "captured_from (args @ [a]) k v"
proof -
  from assms obtain pre mid post
    where "args = pre @ k # mid @ v # post" "\<forall>t\<in>set mid. skipped_flag t"
    unfolding captured_from_def by blast
  then have "args @ [a] = pre @ k # mid @ v # (post @ [a]) \<and> (\<forall>t\<in>set mid. skipped_flag t)"
    by simp
  then show ?thesis unfolding captured_from_def by blast
qed

lemma pending_from_skip:
  assumes "pending_from args k" "skipped_flag a"
  shows "pending_from (args @ [a]) k"
proof -
  from assms(1) obtain pre mid where "args = pre @ k # mid" "\<forall>t\<in>set mid. skipped_flag t"
    unfolding pending_from_def by blast
  with assms(2) have "args @ [a] = pre @ k # (mid @ [a]) \<and> (\<forall>t\<in>set (mid @ [a]). skipped_flag t)"
    by simp
  then show ?thesis unfolding pending_from_def by blast
qed

lemma pending_from_capture:
  assumes "pending_from args k"
  shows "captured_from (args @ [v]) k v"
proof -
  from assms obtain pre mid where "args = pre @ k # mid" "\<forall>t\<in>set mid. skipped_flag t"
    unfolding pending_from_def by blast
  then have "args @ [v] = pre @ k # mid @ v # [] \<and> (\<forall>t\<in>set mid. skipped_flag t)"
    by simp
  then show ?thesis unfolding captured_from_def by blast
qed

lemma pending_from_new: "pending_from (args @ [k]) k"
proof -
  have "args @ [k] = args @ k # [] \<and> (\<forall>t\<in>set ([]::string list). skipped_flag t)" by simp
  then show ?thesis unfolding pending_from_def by blast
qed

text \<open>
  The invariant of the loop: every stored value and the pending key come from the
  token list in the way \<open>captured_from\<close> and \<open>pending_from\<close> say.
\<close>

lemma parse_loop_inv:
  "parse_loop args = (result, key) \<Longrightarrow>
     (\<forall>k v. result k = Some v \<longrightarrow>
        k \<in> INTERESTING_FLAGS \<and> \<not> startswith v ''-'' \<and> captured_from args k v) \<and>
     (\<forall>k. key = Some k \<longrightarrow> k \<in> INTERESTING_FLAGS \<and> pending_from args k)"
proof (induction args arbitrary: result key rule: rev_induct)
  case Nil
  then show ?case by (auto simp: parse_loop_def)
next
  case (snoc a args)
  obtain r0 k0 where st: "parse_loop args = (r0, k0)" by (cases "parse_loop args")
  note ih = snoc.IH [OF st]
  have step: "parse_step (r0, k0) a = (result, key)"
    using snoc.prems st by (simp add: parse_loop_snoc)
  show ?case
  proof (cases "startswith a ''-''")
    case dash: True
    show ?thesis
    proof (cases "a \<in> INTERESTING_FLAGS")
      case True
      with dash step have "result = r0" "key = Some a" by auto
      with ih True show ?thesis
        by (auto intro: captured_from_snoc pending_from_new)
    next
      case False
      with dash step have eq: "result = r0" "key = k0" by auto
      from dash False have "skipped_flag a" by (simp add: skipped_flag_def)
      with ih eq show ?thesis
        by (auto intro: captured_from_snoc pending_from_skip)
    qed
  next
    case nodash: False
    show ?thesis
    proof (cases k0)
      case None
      with nodash step have "result = r0" "key = None" by auto
      with ih show ?thesis by (auto intro: captured_from_snoc)
    next
      case (Some k)
      with nodash step have eq: "result = r0(k \<mapsto> a)" "key = None" by auto
      from ih Some have "k \<in> INTERESTING_FLAGS" "pending_from args k" by auto
      with ih eq nodash show ?thesis
        by (auto intro: captured_from_snoc pending_from_capture split: if_splits)
    qed
  qed
qed

lemma parse_loop_skipped:
  "\<forall>t\<in>set mid. skipped_flag t \<Longrightarrow> foldl parse_step st mid = st"
  by (induction mid arbitrary: st) (auto simp: skipped_flag_def split: prod.splits)

lemma parse_capture:
  assumes "k \<in> INTERESTING_FLAGS" "\<forall>t\<in>set mid. skipped_flag t" "\<not> startswith v ''-''"
  shows "parse_loop (pre @ k # mid @ [v]) = ((fst (parse_loop pre))(k \<mapsto> v), None)"
proof -
  obtain r0 k0 where st: "foldl parse_step (Map.empty, None) pre = (r0, k0)"
    by (cases "foldl parse_step (Map.empty, None) pre")
  have "parse_step (r0, k0) k = (r0, Some k)"
    using assms(1) interesting_dash by simp
  then show ?thesis
    using st assms(2,3) by (simp add: parse_loop_def parse_loop_skipped)
qed

lemma parse_keeps:
  "k \<notin> set post \<Longrightarrow> key \<noteq> Some k \<Longrightarrow>
     fst (foldl parse_step (result, key) post) k = result k \<and>
     snd (foldl parse_step (result, key) post) \<noteq> Some k"
proof (induction post arbitrary: result key)
  case Nil
  then show ?case by simp
next
  case (Cons a post)
  then show ?case by (cases key) auto
qed

lemma parse_trailing_flag:
  "startswith t ''-'' \<Longrightarrow> parse_xcodebuild_flags (args @ [t]) = parse_xcodebuild_flags args"
  by (cases "parse_loop args") (simp add: parse_xcodebuild_flags_def parse_loop_snoc)

lemma parse_skipped_token:
  assumes "skipped_flag t"
  shows "parse_xcodebuild_flags (pre @ t # post) = parse_xcodebuild_flags (pre @ post)"
proof -
  have "foldl parse_step (parse_loop pre) [t] = parse_loop pre"
    using assms by (intro parse_loop_skipped) simp
  then show ?thesis
    by (simp add: parse_xcodebuild_flags_def parse_loop_def)
qed

text \<open>
  C1, as stated, fails: in \<^verbatim>\<open>['-project', '-quiet', 'Foo.xcodeproj']\<close> the token
  \<^verbatim>\<open>Foo.xcodeproj\<close> is captured as the value of \<^verbatim>\<open>-project\<close>, and the only token that
  stands immediately before it is \<^verbatim>\<open>-quiet\<close>, which is not a recognized flag name.
\<close>

theorem parse_flags_not_immediate:
  "parse_xcodebuild_flags [''-project'', ''-quiet'', ''Foo.xcodeproj''] ''-project''
     = Some ''Foo.xcodeproj'' \<and>
   preceding_tokens [''-project'', ''-quiet'', ''Foo.xcodeproj''] ''Foo.xcodeproj''
     = [''-quiet''] \<and>
   ''-quiet'' \<notin> INTERESTING_FLAGS"
  by (simp add: parse_xcodebuild_flags_def parse_loop_def startswith_def
      INTERESTING_FLAGS_def preceding_tokens_def)

text \<open>
  C1, amended. A token is captured as the value of a flag only when the flag is one of
  the recognized names, the token does not begin with a dash, and the token follows an
  occurrence of the flag with nothing but skipped tokens (tokens that begin with a dash
  and are not recognized) in between; and a token in that position is captured. A token
  that begins with a dash at the end of the list leaves the mapping as it was, so a
  recognized flag without a following token is dropped; a skipped token anywhere in the
  list leaves the mapping as it would be without it.
\<close>

theorem parse_flags_capture_rule:
  "(parse_xcodebuild_flags args k = Some v \<longrightarrow>
      k \<in> INTERESTING_FLAGS \<and> \<not> startswith v ''-'' \<and>
      (\<exists>pre mid post. args = pre @ k # mid @ v # post \<and> (\<forall>t\<in>set mid. skipped_flag t))) \<and>
   (k \<in> INTERESTING_FLAGS \<and> (\<forall>t\<in>set mid'. skipped_flag t) \<and> \<not> startswith v ''-'' \<longrightarrow>
      parse_xcodebuild_flags (pre' @ k # mid' @ [v]) k = Some v) \<and>
   (startswith t ''-'' \<longrightarrow>
      parse_xcodebuild_flags (args @ [t]) = parse_xcodebuild_flags args) \<and>
   (skipped_flag t \<longrightarrow>
      parse_xcodebuild_flags (pre' @ t # post') = parse_xcodebuild_flags (pre' @ post'))"
proof (intro conjI impI)
  assume "parse_xcodebuild_flags args k = Some v"
  then obtain key where "parse_loop args = (parse_xcodebuild_flags args, key)"
    and "parse_xcodebuild_flags args k = Some v"
    by (cases "parse_loop args") (simp add: parse_xcodebuild_flags_def)
  from parse_loop_inv [OF this(1)] this(2)
  have "k \<in> INTERESTING_FLAGS" "\<not> startswith v ''-''" "captured_from args k v"
    by blast+
  then show "k \<in> INTERESTING_FLAGS" "\<not> startswith v ''-''"
    "\<exists>pre mid post. args = pre @ k # mid @ v # post \<and> (\<forall>t\<in>set mid. skipped_flag t)"
    by (simp_all add: captured_from_def)
next
  assume "k \<in> INTERESTING_FLAGS \<and> (\<forall>t\<in>set mid'. skipped_flag t) \<and> \<not> startswith v ''-''"
  then show "parse_xcodebuild_flags (pre' @ k # mid' @ [v]) k = Some v"
    by (simp add: parse_xcodebuild_flags_def parse_capture)
next
  assume "startswith t ''-''"
  then show "parse_xcodebuild_flags (args @ [t]) = parse_xcodebuild_flags args"
    by (rule parse_trailing_flag)
next
  assume "skipped_flag t"
  then show "parse_xcodebuild_flags (pre' @ t # post') = parse_xcodebuild_flags (pre' @ post')"
    by (rule parse_skipped_token)
qed

theorem parse_flags_capture_rule_witness:
  "parse_xcodebuild_flags [''-scheme'', ''-quiet'', ''Client''] ''-scheme'' = Some ''Client'' \<and>
   ''-scheme'' \<in> INTERESTING_FLAGS \<and> skipped_flag ''-quiet'' \<and> \<not> startswith ''Client'' ''-'' \<and>
   (\<exists>pre mid post. [''-scheme'', ''-quiet'', ''Client''] = pre @ ''-scheme'' # mid @ ''Client'' # post \<and>
      (\<forall>t\<in>set mid. skipped_flag t)) \<and>
   startswith ''-quiet'' ''-'' \<and>
   parse_xcodebuild_flags ([''-scheme'', ''-quiet'', ''Client''] @ [''-quiet''])
     = parse_xcodebuild_flags [''-scheme'', ''-quiet'', ''Client''] \<and>
   parse_xcodebuild_flags ([''-scheme''] @ ''-quiet'' # [''Client''])
     = parse_xcodebuild_flags ([''-scheme''] @ [''Client''])"
proof -
  have a: "''-scheme'' \<in> INTERESTING_FLAGS" by (simp add: INTERESTING_FLAGS_def)
  have b: "skipped_flag ''-quiet''"
    by (simp add: skipped_flag_def startswith_def INTERESTING_FLAGS_def)
  have c: "\<not> startswith ''Client'' ''-''" by (simp add: startswith_def)
  have d: "startswith ''-quiet'' ''-''" by (simp add: startswith_def)
  have e: "\<forall>t\<in>set [''-quiet'']. skipped_flag t" using b by simp
  note r = parse_flags_capture_rule
    [of "[''-scheme'', ''-quiet'', ''Client'']" "''-scheme''" "''Client''" "[''-quiet'']"
        "[]" "''-quiet''" "[''Client'']"]
  from r a e c have f:
    "parse_xcodebuild_flags [''-scheme'', ''-quiet'', ''Client''] ''-scheme'' = Some ''Client''"
    by simp
  with r have g: "\<exists>pre mid post.
      [''-scheme'', ''-quiet'', ''Client''] = pre @ ''-scheme'' # mid @ ''Client'' # post \<and>
      (\<forall>t\<in>set mid. skipped_flag t)"
    by blast
  from r d have h: "parse_xcodebuild_flags ([''-scheme'', ''-quiet'', ''Client''] @ [''-quiet''])
     = parse_xcodebuild_flags [''-scheme'', ''-quiet'', ''Client'']"
    by blast
  note r' = parse_flags_capture_rule
    [of "[]" "''-scheme''" "''Client''" "[]" "[''-scheme'']" "''-quiet''" "[''Client'']"]
  from r' b have i: "parse_xcodebuild_flags ([''-scheme''] @ ''-quiet'' # [''Client''])
     = parse_xcodebuild_flags ([''-scheme''] @ [''Client''])"
    by blast
  from a b c d f g h i show ?thesis by blast
qed

text \<open>
  C10. When a recognized flag is followed (after skipped tokens only) by a token that
  does not begin with a dash, and the flag does not occur again in the rest of the list,
  the mapping holds that token for the flag, whatever earlier occurrences of the flag
  captured: a later capture overwrites an earlier one.
\<close>

theorem parse_flags_last_wins:
  assumes "k \<in> INTERESTING_FLAGS" "\<forall>t\<in>set mid. skipped_flag t" "\<not> startswith v ''-''"
    and "k \<notin> set post"
  shows "parse_xcodebuild_flags (pre @ k # mid @ v # post) k = Some v"
proof -
  have "parse_loop (pre @ k # mid @ [v]) = ((fst (parse_loop pre))(k \<mapsto> v), None)"
    using assms(1-3) by (rule parse_capture)
  then have "parse_loop (pre @ k # mid @ v # post)
      = foldl parse_step ((fst (parse_loop pre))(k \<mapsto> v), None) post"
    by (simp add: parse_loop_def)
  then show ?thesis
    using parse_keeps [of k post None "(fst (parse_loop pre))(k \<mapsto> v)"] assms(4)
    by (simp add: parse_xcodebuild_flags_def)
qed

theorem parse_flags_last_wins_witness:
  "''-scheme'' \<in> INTERESTING_FLAGS \<and> \<not> startswith ''Second'' ''-'' \<and>
   ''-scheme'' \<notin> set [''-project'', ''Client.xcodeproj''] \<and>
   parse_xcodebuild_flags
     ([''-scheme'', ''First''] @ ''-scheme'' # [] @ ''Second'' # [''-project'', ''Client.xcodeproj''])
     ''-scheme'' = Some ''Second''"
proof -
  have a: "''-scheme'' \<in> INTERESTING_FLAGS" by (simp add: INTERESTING_FLAGS_def)
  have b: "\<forall>t\<in>set ([]::string list). skipped_flag t" by simp
  have c: "\<not> startswith ''Second'' ''-''" by (simp add: startswith_def)
  have d: "''-scheme'' \<notin> set [''-project'', ''Client.xcodeproj'']" by simp
  from parse_flags_last_wins [OF a b c d, of "[''-scheme'', ''First'']"] a c d
  show ?thesis by blast
qed

section \<open>Properties of the project name\<close>

lemma nat_int_Suc: "nat (int n + 1) = Suc n" by simp

lemma skip_leading_dots_iff:
  "skip_leading_dots p i d \<longleftrightarrow> (\<exists>j. i \<le> j \<and> j < d \<and> take 1 (drop j p) \<noteq> ''.'')"
proof (induction p i d rule: skip_leading_dots.induct)
  case (1 p i d)
  show ?case
  proof (cases "i < d")
    case False
    then show ?thesis by (subst skip_leading_dots.simps) auto
  next
    case lt: True
    show ?thesis
    proof (cases "take 1 (drop i p) \<noteq> ''.''")
      case True
      with lt show ?thesis by (subst skip_leading_dots.simps) auto
    next
      case False
      with lt have "skip_leading_dots p i d = skip_leading_dots p (Suc i) d"
        by (subst skip_leading_dots.simps) simp
      also have "\<dots> \<longleftrightarrow> (\<exists>j. Suc i \<le> j \<and> j < d \<and> take 1 (drop j p) \<noteq> ''.'')"
        using 1 lt False by simp
      also have "\<dots> \<longleftrightarrow> (\<exists>j. i \<le> j \<and> j < d \<and> take 1 (drop j p) \<noteq> ''.'')"
        using False by (metis Suc_leD Suc_leI le_neq_implies_less)
      finally show ?thesis .
    qed
  qed
qed

lemma skip_leading_dots_set:
  assumes "d \<le> length p"
  shows "skip_leading_dots p 0 d \<longleftrightarrow> (\<exists>c\<in>set (take d p). c \<noteq> CHR ''.'')"
proof -
  have h: "take 1 (drop j p) = [p ! j]" if "j < d" for j
    using that assms by (simp add: take_Suc_conv_app_nth)
  show ?thesis
  proof
    assume "skip_leading_dots p 0 d"
    then obtain j where j: "j < d" "take 1 (drop j p) \<noteq> ''.''"
      unfolding skip_leading_dots_iff by blast
    with h have "p ! j \<noteq> CHR ''.''" by simp
    moreover have "p ! j \<in> set (take d p)"
      using j(1) assms by (metis length_take min.absorb2 nth_mem nth_take)
    ultimately show "\<exists>c\<in>set (take d p). c \<noteq> CHR ''.''" by blast
  next
    assume "\<exists>c\<in>set (take d p). c \<noteq> CHR ''.''"
    then obtain c where c: "c \<in> set (take d p)" "c \<noteq> CHR ''.''" by blast
    then obtain j where j: "j < length (take d p)" "take d p ! j = c"
      by (meson in_set_conv_nth)
    then have "j < d" "p ! j = c" by simp_all
    with h c(2) have "0 \<le> j \<and> j < d \<and> take 1 (drop j p) \<noteq> ''.''" by simp
    then show "skip_leading_dots p 0 d"
      unfolding skip_leading_dots_iff by blast
  qed
qed

lemma rfind_absent: "c \<notin> set s \<Longrightarrow> rfind s c = - 1"
  by (simp add: rfind_def)

lemma rfind_last: "c \<notin> set t \<Longrightarrow> rfind (s @ c # t) c = int (length s)"
proof -
  assume a: "c \<notin> set t"
  then have "takeWhile (\<lambda>x. x \<noteq> c) (rev t @ c # rev s) = takeWhile (\<lambda>x. x \<noteq> c) (rev t)"
    by (intro takeWhile_tail) simp
  also have "\<dots> = rev t" using a by (auto simp: takeWhile_eq_all_conv)
  finally have "takeWhile (\<lambda>x. x \<noteq> c) (rev t @ c # rev s) = rev t" .
  then show ?thesis by (simp add: rfind_def)
qed

lemma split_last_occ:
  assumes "c \<in> set s"
  shows "\<exists>a b. s = a @ c # b \<and> c \<notin> set b"
  using assms by (metis split_list_last)

lemma basename_no_sep: "CHR ''/'' \<notin> set (basename p)"
proof (cases "CHR ''/'' \<in> set p")
  case False
  then show ?thesis by (simp add: basename_def rfind_absent)
next
  case True
  then obtain a b where "p = a @ CHR ''/'' # b" "CHR ''/'' \<notin> set b"
    using split_last_occ by metis
  then show ?thesis by (simp add: basename_def rfind_last nat_int_Suc)
qed

lemma basename_cases:
  "basename p = b \<longleftrightarrow> CHR ''/'' \<notin> set b \<and> (p = b \<or> (\<exists>d. p = d @ CHR ''/'' # b))"
proof (cases "CHR ''/'' \<in> set p")
  case False
  then have "basename p = p" by (simp add: basename_def rfind_absent)
  with False show ?thesis by auto
next
  case True
  then obtain a c where pc: "p = a @ CHR ''/'' # c" "CHR ''/'' \<notin> set c"
    using split_last_occ by metis
  then have bn: "basename p = c" by (simp add: basename_def rfind_last nat_int_Suc)
  show ?thesis
  proof
    assume "basename p = b"
    with bn pc show "CHR ''/'' \<notin> set b \<and> (p = b \<or> (\<exists>d. p = d @ CHR ''/'' # b))" by auto
  next
    assume r: "CHR ''/'' \<notin> set b \<and> (p = b \<or> (\<exists>d. p = d @ CHR ''/'' # b))"
    with True obtain d where "p = d @ CHR ''/'' # b" by auto
    with r have "basename p = b" by (simp add: basename_def rfind_last nat_int_Suc)
    then show "basename p = b" .
  qed
qed

lemma splitext_append: "fst (splitext p) @ snd (splitext p) = p"
  by (simp add: splitext_def Let_def)

lemma splitext_nosep:
  assumes "CHR ''/'' \<notin> set b"
  shows "splitext b = (r, CHR ''.'' # e) \<longleftrightarrow>
     b = r @ CHR ''.'' # e \<and> CHR ''.'' \<notin> set e \<and> (\<exists>c\<in>set r. c \<noteq> CHR ''.'')"
proof (cases "CHR ''.'' \<in> set b")
  case False
  then show ?thesis using assms by (auto simp: splitext_def rfind_absent)
next
  case True
  then obtain a c where bc: "b = a @ CHR ''.'' # c" "CHR ''.'' \<notin> set c"
    using split_last_occ by metis
  have sk: "skip_leading_dots b 0 (length a) \<longleftrightarrow> (\<exists>x\<in>set a. x \<noteq> CHR ''.'')"
    using skip_leading_dots_set [of "length a" b] bc by simp
  have sp: "splitext b = (if \<exists>x\<in>set a. x \<noteq> CHR ''.'' then (a, CHR ''.'' # c) else (b, []))"
    using assms bc sk by (simp add: splitext_def rfind_absent rfind_last)
  show ?thesis
  proof
    assume "splitext b = (r, CHR ''.'' # e)"
    with sp bc show "b = r @ CHR ''.'' # e \<and> CHR ''.'' \<notin> set e \<and> (\<exists>c\<in>set r. c \<noteq> CHR ''.'')"
      by (auto split: if_splits)
  next
    assume r: "b = r @ CHR ''.'' # e \<and> CHR ''.'' \<notin> set e \<and> (\<exists>c\<in>set r. c \<noteq> CHR ''.'')"
    have "rfind b CHR ''.'' = int (length r)" using r rfind_last by metis
    moreover have "rfind b CHR ''.'' = int (length a)" using bc rfind_last by metis
    ultimately have "length a = length r" by simp
    with r bc have "a = r" "c = e" by auto
    with sp r show "splitext b = (r, CHR ''.'' # e)" by auto
  qed
qed

lemma project_from_project_path_iff:
  "project_from_project_path path = Inr r \<longleftrightarrow>
     basename path = r @ ''.xcodeproj'' \<and> (\<exists>c\<in>set r. c \<noteq> CHR ''.'')"
proof -
  have "project_from_project_path path = Inr r \<longleftrightarrow> splitext (basename path) = (r, ''.xcodeproj'')"
    by (auto simp: project_from_project_path_def split: prod.splits)
  also have "\<dots> \<longleftrightarrow> basename path = r @ ''.xcodeproj'' \<and> (\<exists>c\<in>set r. c \<noteq> CHR ''.'')"
    using splitext_nosep [OF basename_no_sep, of path r "''xcodeproj''"] by simp
  finally show ?thesis .
qed

lemma project_from_project_path_ext:
  "project_from_project_path path =
     (if snd (splitext (basename path)) = ''.xcodeproj''
      then Inr (fst (splitext (basename path))) else Inl ValueError)"
  by (simp add: project_from_project_path_def split: prod.splits)

text \<open>
  C7. \<^verbatim>\<open>project_from_project_path("Client/Example/Client.xcodeproj")\<close> is \<^verbatim>\<open>"Client"\<close>.
  When the extension that \<^verbatim>\<open>splitext\<close> finds in the basename is \<^verbatim>\<open>.xcodeproj\<close>, the
  function returns the other part, which is the basename without that extension; for
  every other extension it raises \<^verbatim>\<open>ValueError\<close>. Said without \<^verbatim>\<open>splitext\<close>: it returns
  \<open>r\<close> exactly when the basename is \<open>r\<close> followed by \<^verbatim>\<open>.xcodeproj\<close> and \<open>r\<close> has a character
  that is not a dot.
\<close>

theorem project_from_project_path_xcodeproj:
  "project_from_project_path ''Client/Example/Client.xcodeproj'' = Inr ''Client'' \<and>
   (snd (splitext (basename path)) = ''.xcodeproj'' \<longrightarrow>
      project_from_project_path path = Inr (fst (splitext (basename path))) \<and>
      fst (splitext (basename path)) @ ''.xcodeproj'' = basename path) \<and>
   (snd (splitext (basename path)) \<noteq> ''.xcodeproj'' \<longrightarrow>
      project_from_project_path path = Inl ValueError) \<and>
   (project_from_project_path path = Inr r \<longleftrightarrow>
      basename path = r @ ''.xcodeproj'' \<and> (\<exists>c\<in>set r. c \<noteq> CHR ''.''))"
proof (intro conjI impI)
  show "project_from_project_path ''Client/Example/Client.xcodeproj'' = Inr ''Client''"
    by code_simp
next
  assume e: "snd (splitext (basename path)) = ''.xcodeproj''"
  then show "project_from_project_path path = Inr (fst (splitext (basename path)))"
    by (simp add: project_from_project_path_ext)
  from e splitext_append [of "basename path"]
  show "fst (splitext (basename path)) @ ''.xcodeproj'' = basename path"
    by simp
next
  assume "snd (splitext (basename path)) \<noteq> ''.xcodeproj''"
  then show "project_from_project_path path = Inl ValueError"
    by (simp add: project_from_project_path_ext)
next
  show "project_from_project_path path = Inr r \<longleftrightarrow>
      basename path = r @ ''.xcodeproj'' \<and> (\<exists>c\<in>set r. c \<noteq> CHR ''.'')"
    by (rule project_from_project_path_iff)
qed

theorem project_from_project_path_xcodeproj_witness:
  "snd (splitext (basename ''Client/Example/Client.xcodeproj'')) = ''.xcodeproj'' \<and>
   project_from_project_path ''Client/Example/Client.xcodeproj'' = Inr ''Client'' \<and>
   basename ''Client/Example/Client.xcodeproj'' = ''Client'' @ ''.xcodeproj'' \<and>
   snd (splitext (basename ''Client/Example/Client.xcworkspace'')) \<noteq> ''.xcodeproj'' \<and>
   project_from_project_path ''Client/Example/Client.xcworkspace'' = Inl ValueError"
proof -
  have a: "snd (splitext (basename ''Client/Example/Client.xcodeproj'')) = ''.xcodeproj''"
    by code_simp
  have b: "snd (splitext (basename ''Client/Example/Client.xcworkspace'')) \<noteq> ''.xcodeproj''"
    by code_simp
  note t1 = project_from_project_path_xcodeproj [of "''Client/Example/Client.xcodeproj''" "''Client''"]
  note t2 = project_from_project_path_xcodeproj [of "''Client/Example/Client.xcworkspace''" "''Client''"]
  from t1 have c: "project_from_project_path ''Client/Example/Client.xcodeproj'' = Inr ''Client''"
    by blast
  with t1 have d: "basename ''Client/Example/Client.xcodeproj'' = ''Client'' @ ''.xcodeproj''"
    by blast
  from t2 b have e: "project_from_project_path ''Client/Example/Client.xcworkspace'' = Inl ValueError"
    by blast
  from a b c d e show ?thesis by blast
qed

section \<open>Properties of the bundle locator\<close>

lemma snd_io_bind:
  "snd (io_bind m f) = (case snd m of Inl e \<Rightarrow> Inl e | Inr x \<Rightarrow> snd (f x))"
  by (cases m) (auto simp: io_bind_def split: sum.splits prod.splits)

lemma snd_io_simps:
  "snd (io_return x) = Inr x" "snd (io_raise e) = Inl e" "snd (io_lift r) = r"
  "snd (io_emit ev) = Inr ()"
  by (simp_all add: io_return_def io_raise_def io_lift_def io_emit_def)

lemma snd_io_getmtime: "snd (io_getmtime env p) = getmtime env p"
  by (simp add: io_getmtime_def snd_io_bind snd_io_simps)

lemma find_newest_loop_ok:
  fixes mtime :: "string \<Rightarrow> real"
  assumes "\<forall>e\<in>set entries. prefix e \<longrightarrow> getmtime env (path_join path e) = Inr (mtime (path_join path e))"
    and "\<forall>r. result = Some r \<longrightarrow> getmtime env r = Inr (mtime r)"
  shows "\<exists>res. snd (find_newest_loop env path prefix result entries :: ('f, string option) io) = Inr res \<and>
     (case res of
        None \<Rightarrow> result = None \<and> (\<forall>e\<in>set entries. \<not> prefix e)
      | Some q \<Rightarrow>
          (result = Some q \<or> (\<exists>e\<in>set entries. prefix e \<and> q = path_join path e)) \<and>
          (\<forall>e\<in>set entries. prefix e \<longrightarrow> mtime (path_join path e) \<le> mtime q) \<and>
          (\<forall>r. result = Some r \<longrightarrow> mtime r \<le> mtime q))"
  using assms
proof (induction entries arbitrary: result)
  case Nil
  then show ?case by (auto simp: snd_io_simps split: option.splits)
next
  case (Cons entry entries)
  let ?fq = "path_join path entry"
  define r1 where "r1 =
     (if prefix entry then
        (case result of None \<Rightarrow> Some ?fq
         | Some r \<Rightarrow> if mtime ?fq > mtime r then Some ?fq else Some r)
      else result)"
  have step: "snd (find_newest_step env path prefix result entry :: ('f, string option) io) = Inr r1"
    using Cons.prems
    by (auto simp: find_newest_step_def r1_def snd_io_bind snd_io_simps snd_io_getmtime Let_def
        split: option.splits)
  have pre1: "\<forall>e\<in>set entries. prefix e \<longrightarrow> getmtime env (path_join path e) = Inr (mtime (path_join path e))"
    using Cons.prems(1) by simp
  have pre2: "\<forall>r. r1 = Some r \<longrightarrow> getmtime env r = Inr (mtime r)"
    using Cons.prems by (auto simp: r1_def split: option.splits if_splits)
  from Cons.IH [OF pre1 pre2] obtain res where
    res: "snd (find_newest_loop env path prefix r1 entries :: ('f, string option) io) = Inr res"
    and rest: "(case res of
        None \<Rightarrow> r1 = None \<and> (\<forall>e\<in>set entries. \<not> prefix e)
      | Some q \<Rightarrow>
          (r1 = Some q \<or> (\<exists>e\<in>set entries. prefix e \<and> q = path_join path e)) \<and>
          (\<forall>e\<in>set entries. prefix e \<longrightarrow> mtime (path_join path e) \<le> mtime q) \<and>
          (\<forall>r. r1 = Some r \<longrightarrow> mtime r \<le> mtime q))"
    by blast
  have run: "snd (find_newest_loop env path prefix result (entry # entries) :: ('f, string option) io) = Inr res"
    using step res by (simp add: snd_io_bind)
  show ?case
  proof (cases res)
    case None
    with rest have "r1 = None" "\<forall>e\<in>set entries. \<not> prefix e" by auto
    then have "result = None \<and> \<not> prefix entry"
      by (auto simp: r1_def split: if_splits option.splits)
    with None run \<open>\<forall>e\<in>set entries. \<not> prefix e\<close> show ?thesis by auto
  next
    case (Some q)
    with rest have q1: "r1 = Some q \<or> (\<exists>e\<in>set entries. prefix e \<and> q = path_join path e)"
      and q2: "\<forall>e\<in>set entries. prefix e \<longrightarrow> mtime (path_join path e) \<le> mtime q"
      and q3: "\<forall>r. r1 = Some r \<longrightarrow> mtime r \<le> mtime q"
      by auto
    have a: "result = Some q \<or> (\<exists>e\<in>set (entry # entries). prefix e \<and> q = path_join path e)"
      using q1 by (auto simp: r1_def split: if_splits option.splits)
    have b: "prefix entry \<longrightarrow> mtime ?fq \<le> mtime q"
      using q3 by (auto simp: r1_def split: if_splits option.splits)
    have c: "\<forall>r. result = Some r \<longrightarrow> mtime r \<le> mtime q"
      using q3 by (auto simp: r1_def split: if_splits option.splits)
    from a b c q2 Some run show ?thesis by auto
  qed
qed

lemma find_newest_matching_prefix_ok:
  fixes mtime :: "string \<Rightarrow> real"
  assumes ls: "listdir env path = Inr entries"
    and mt: "\<forall>e\<in>set entries. prefix e \<longrightarrow>
               getmtime env (path_join path e) = Inr (mtime (path_join path e))"
  shows "if \<exists>e\<in>set entries. prefix e then
       \<exists>e\<in>set entries. prefix e \<and>
         snd (find_newest_matching_prefix env path prefix :: ('f, string option) io)
           = Inr (Some (path_join path e)) \<and>
         (\<forall>e'\<in>set entries. prefix e' \<longrightarrow> mtime (path_join path e') \<le> mtime (path_join path e))
     else snd (find_newest_matching_prefix env path prefix :: ('f, string option) io) = Inr None"
proof -
  have run: "snd (find_newest_matching_prefix env path prefix :: ('f, string option) io)
      = snd (find_newest_loop env path prefix None entries :: ('f, string option) io)"
    using ls by (simp add: find_newest_matching_prefix_def snd_io_bind snd_io_simps)
  have "\<forall>r. (None :: string option) = Some r \<longrightarrow> getmtime env r = Inr (mtime r)" by simp
  from find_newest_loop_ok [OF mt this, where 'f = 'f] obtain res where
    res: "snd (find_newest_loop env path prefix None entries :: ('f, string option) io) = Inr res"
    and rp0: "(case res of
        None \<Rightarrow> (None :: string option) = None \<and> (\<forall>e\<in>set entries. \<not> prefix e)
      | Some q \<Rightarrow>
          ((None :: string option) = Some q \<or> (\<exists>e\<in>set entries. prefix e \<and> q = path_join path e)) \<and>
          (\<forall>e\<in>set entries. prefix e \<longrightarrow> mtime (path_join path e) \<le> mtime q) \<and>
          (\<forall>r. (None :: string option) = Some r \<longrightarrow> mtime r \<le> mtime q))"
    by blast
  have rp: "(case res of
        None \<Rightarrow> (\<forall>e\<in>set entries. \<not> prefix e)
      | Some q \<Rightarrow>
          (\<exists>e\<in>set entries. prefix e \<and> q = path_join path e) \<and>
          (\<forall>e\<in>set entries. prefix e \<longrightarrow> mtime (path_join path e) \<le> mtime q))"
    using rp0 by (cases res) simp_all
  show ?thesis
  proof (cases res)
    case None
    with rp res run show ?thesis by auto
  next
    case (Some q)
    with rp obtain e where "e \<in> set entries" "prefix e" "q = path_join path e"
      and "\<forall>e'\<in>set entries. prefix e' \<longrightarrow> mtime (path_join path e') \<le> mtime q"
      by auto
    with Some res run show ?thesis by auto
  qed
qed

lemma startswith_iff: "startswith s p \<longleftrightarrow> (\<exists>rest. s = p @ rest)"
proof
  assume "startswith s p"
  then have "s = p @ drop (length p) s"
    unfolding startswith_def by (metis append_take_drop_id)
  then show "\<exists>rest. s = p @ rest" ..
next
  assume "\<exists>rest. s = p @ rest"
  then show "startswith s p" by (auto simp: startswith_def)
qed

lemma project_prefix_iff: "project_prefix project e \<longleftrightarrow> (\<exists>rest. e = project @ ''-'' @ rest)"
  by (simp add: project_prefix_def startswith_iff)

lemma scheme_prefix_iff:
  "scheme_prefix scheme e \<longleftrightarrow>
     (\<exists>x rest. e = x @ ''-'' @ scheme @ ''-'' @ rest \<and> CHR ''-'' \<notin> set x)"
proof
  assume "scheme_prefix scheme e"
  then obtain rest where d: "dropWhile (\<lambda>c. c \<noteq> CHR ''-'') e = (''-'' @ scheme @ ''-'') @ rest"
    unfolding scheme_prefix_def startswith_iff by blast
  have "e = takeWhile (\<lambda>c. c \<noteq> CHR ''-'') e @ dropWhile (\<lambda>c. c \<noteq> CHR ''-'') e"
    by simp
  with d have "e = takeWhile (\<lambda>c. c \<noteq> CHR ''-'') e @ ''-'' @ scheme @ ''-'' @ rest"
    by simp
  moreover have "CHR ''-'' \<notin> set (takeWhile (\<lambda>c. c \<noteq> CHR ''-'') e)"
    by (auto dest: set_takeWhileD)
  ultimately show "\<exists>x rest. e = x @ ''-'' @ scheme @ ''-'' @ rest \<and> CHR ''-'' \<notin> set x"
    by blast
next
  assume "\<exists>x rest. e = x @ ''-'' @ scheme @ ''-'' @ rest \<and> CHR ''-'' \<notin> set x"
  then obtain x rest where e: "e = x @ ''-'' @ scheme @ ''-'' @ rest" and x: "CHR ''-'' \<notin> set x"
    by blast
  from x have "dropWhile (\<lambda>c. c \<noteq> CHR ''-'') (x @ ''-'' @ scheme @ ''-'' @ rest)
      = dropWhile (\<lambda>c. c \<noteq> CHR ''-'') (''-'' @ scheme @ ''-'' @ rest)"
    by (intro dropWhile_append2) auto
  with e have "dropWhile (\<lambda>c. c \<noteq> CHR ''-'') e = (''-'' @ scheme @ ''-'') @ rest" by simp
  then show "scheme_prefix scheme e"
    unfolding scheme_prefix_def startswith_iff by blast
qed

lemma find_project_path_result:
  "snd (find_project_path env project :: ('f, string) io) =
     (case snd (find_newest_matching_prefix env
            (expanduser env ''~/Library/Developer/Xcode/DerivedData'') (project_prefix project)
            :: ('f, string option) io) of
        Inl e \<Rightarrow> Inl e | Inr None \<Rightarrow> Inl LookupError | Inr (Some r) \<Rightarrow> Inr r)"
  by (simp add: find_project_path_def Let_def snd_io_bind snd_io_simps
      split: sum.splits option.splits)

lemma find_xcresult_path_result:
  "snd (find_project_path env project :: ('f, string) io) = Inr project_path \<Longrightarrow>
   snd (find_xcresult_path env project scheme :: ('f, string) io) =
     (case snd (find_newest_matching_prefix env (path_join project_path ''Logs/Test'')
            (scheme_prefix scheme) :: ('f, string option) io) of
        Inl e \<Rightarrow> Inl e | Inr None \<Rightarrow> Inl LookupError | Inr (Some r) \<Rightarrow> Inr r)"
  by (simp add: find_xcresult_path_def Let_def snd_io_bind snd_io_simps
      split: sum.splits option.splits)

text \<open>
  C6. Let the directory listing succeed and the modification time of every matching
  entry be readable. \<^verbatim>\<open>find_xcresult_path\<close>, which lists \<^verbatim>\<open>Logs/Test\<close> under the project
  directory with the pattern of the scheme, returns the full path of an entry that
  matches the pattern and whose modification time is greatest among the matching
  entries, and raises \<^verbatim>\<open>LookupError\<close> when no entry matches. \<^verbatim>\<open>find_project_path\<close> does
  the same in the derived-data directory with the pattern of the project (entries such
  as \<^verbatim>\<open>Client-aaa\<close> and \<^verbatim>\<open>Client-bbb\<close>), and \<^verbatim>\<open>find_newest_matching_prefix\<close> does it for
  any pattern, with \<^verbatim>\<open>None\<close> when no entry matches. An entry matches the pattern of the
  scheme exactly when it is some text without a dash, a dash, the scheme, a dash, and
  anything.
\<close>

theorem bundle_locator_newest:
  fixes mtime :: "string \<Rightarrow> real"
  assumes ls: "listdir env path = Inr entries"
    and mt: "\<forall>e\<in>set entries. prefix e \<longrightarrow>
               getmtime env (path_join path e) = Inr (mtime (path_join path e))"
  shows
    "(snd (find_project_path env project :: ('f, string) io) = Inr project_path \<and>
      path = path_join project_path ''Logs/Test'' \<and> prefix = scheme_prefix scheme \<longrightarrow>
        (if \<exists>e\<in>set entries. scheme_prefix scheme e then
           \<exists>e\<in>set entries. scheme_prefix scheme e \<and>
             snd (find_xcresult_path env project scheme :: ('f, string) io)
               = Inr (path_join path e) \<and>
             (\<forall>e'\<in>set entries. scheme_prefix scheme e' \<longrightarrow>
                mtime (path_join path e') \<le> mtime (path_join path e))
         else snd (find_xcresult_path env project scheme :: ('f, string) io) = Inl LookupError)) \<and>
     (path = expanduser env ''~/Library/Developer/Xcode/DerivedData'' \<and>
      prefix = project_prefix project \<longrightarrow>
        (if \<exists>e\<in>set entries. project_prefix project e then
           \<exists>e\<in>set entries. project_prefix project e \<and>
             snd (find_project_path env project :: ('f, string) io) = Inr (path_join path e) \<and>
             (\<forall>e'\<in>set entries. project_prefix project e' \<longrightarrow>
                mtime (path_join path e') \<le> mtime (path_join path e))
         else snd (find_project_path env project :: ('f, string) io) = Inl LookupError)) \<and>
     (if \<exists>e\<in>set entries. prefix e then
        \<exists>e\<in>set entries. prefix e \<and>
          snd (find_newest_matching_prefix env path prefix :: ('f, string option) io)
            = Inr (Some (path_join path e)) \<and>
          (\<forall>e'\<in>set entries. prefix e' \<longrightarrow> mtime (path_join path e') \<le> mtime (path_join path e))
      else snd (find_newest_matching_prefix env path prefix :: ('f, string option) io) = Inr None) \<and>
     (scheme_prefix scheme entry \<longleftrightarrow>
        (\<exists>x rest. entry = x @ ''-'' @ scheme @ ''-'' @ rest \<and> CHR ''-'' \<notin> set x))"
proof -
  note core = find_newest_matching_prefix_ok [OF ls mt, where 'f = 'f]
  have a: "snd (find_project_path env project :: ('f, string) io) = Inr project_path \<and>
      path = path_join project_path ''Logs/Test'' \<and> prefix = scheme_prefix scheme \<longrightarrow>
        (if \<exists>e\<in>set entries. scheme_prefix scheme e then
           \<exists>e\<in>set entries. scheme_prefix scheme e \<and>
             snd (find_xcresult_path env project scheme :: ('f, string) io)
               = Inr (path_join path e) \<and>
             (\<forall>e'\<in>set entries. scheme_prefix scheme e' \<longrightarrow>
                mtime (path_join path e') \<le> mtime (path_join path e))
         else snd (find_xcresult_path env project scheme :: ('f, string) io) = Inl LookupError)"
  proof (intro impI, elim conjE)
    assume pp: "snd (find_project_path env project :: ('f, string) io) = Inr project_path"
      and p: "path = path_join project_path ''Logs/Test''" and q: "prefix = scheme_prefix scheme"
    show "if \<exists>e\<in>set entries. scheme_prefix scheme e then
           \<exists>e\<in>set entries. scheme_prefix scheme e \<and>
             snd (find_xcresult_path env project scheme :: ('f, string) io)
               = Inr (path_join path e) \<and>
             (\<forall>e'\<in>set entries. scheme_prefix scheme e' \<longrightarrow>
                mtime (path_join path e') \<le> mtime (path_join path e))
         else snd (find_xcresult_path env project scheme :: ('f, string) io) = Inl LookupError"
    proof (cases "\<exists>e\<in>set entries. scheme_prefix scheme e")
      case True
      with core q obtain e where e: "e \<in> set entries" "scheme_prefix scheme e"
        "snd (find_newest_matching_prefix env path prefix :: ('f, string option) io)
            = Inr (Some (path_join path e))"
        "\<forall>e'\<in>set entries. scheme_prefix scheme e' \<longrightarrow>
            mtime (path_join path e') \<le> mtime (path_join path e)"
        by auto
      from e(3) p q have "snd (find_xcresult_path env project scheme :: ('f, string) io)
          = Inr (path_join path e)"
        by (simp add: find_xcresult_path_result [OF pp])
      with e True show ?thesis by auto
    next
      case False
      with core q have "snd (find_newest_matching_prefix env path prefix :: ('f, string option) io)
          = Inr None" by auto
      with p q have "snd (find_xcresult_path env project scheme :: ('f, string) io) = Inl LookupError"
        by (simp add: find_xcresult_path_result [OF pp])
      with False show ?thesis by auto
    qed
  qed
  have b: "path = expanduser env ''~/Library/Developer/Xcode/DerivedData'' \<and>
      prefix = project_prefix project \<longrightarrow>
        (if \<exists>e\<in>set entries. project_prefix project e then
           \<exists>e\<in>set entries. project_prefix project e \<and>
             snd (find_project_path env project :: ('f, string) io) = Inr (path_join path e) \<and>
             (\<forall>e'\<in>set entries. project_prefix project e' \<longrightarrow>
                mtime (path_join path e') \<le> mtime (path_join path e))
         else snd (find_project_path env project :: ('f, string) io) = Inl LookupError)"
  proof (intro impI, elim conjE)
    assume p: "path = expanduser env ''~/Library/Developer/Xcode/DerivedData''"
      and q: "prefix = project_prefix project"
    show "if \<exists>e\<in>set entries. project_prefix project e then
           \<exists>e\<in>set entries. project_prefix project e \<and>
             snd (find_project_path env project :: ('f, string) io) = Inr (path_join path e) \<and>
             (\<forall>e'\<in>set entries. project_prefix project e' \<longrightarrow>
                mtime (path_join path e') \<le> mtime (path_join path e))
         else snd (find_project_path env project :: ('f, string) io) = Inl LookupError"
    proof (cases "\<exists>e\<in>set entries. project_prefix project e")
      case True
      with core q obtain e where e: "e \<in> set entries" "project_prefix project e"
        "snd (find_newest_matching_prefix env path prefix :: ('f, string option) io)
            = Inr (Some (path_join path e))"
        "\<forall>e'\<in>set entries. project_prefix project e' \<longrightarrow>
            mtime (path_join path e') \<le> mtime (path_join path e)"
        by auto
      from e(3) p q have "snd (find_project_path env project :: ('f, string) io)
          = Inr (path_join path e)"
        by (simp add: find_project_path_result)
      with e True show ?thesis by auto
    next
      case False
      with core q have "snd (find_newest_matching_prefix env path prefix :: ('f, string option) io)
          = Inr None" by auto
      with p q have "snd (find_project_path env project :: ('f, string) io) = Inl LookupError"
        by (simp add: find_project_path_result)
      with False show ?thesis by auto
    qed
  qed
  from a b core scheme_prefix_iff [of scheme entry] show ?thesis by blast
qed

lemma ex_paths:
  "path_join ''/dd'' ''Client-aaa'' = ''/dd/Client-aaa''"
  "path_join ''/dd'' ''Client-bbb'' = ''/dd/Client-bbb''"
  "path_join ''/dd/Client-bbb'' ''Logs/Test'' = ''/dd/Client-bbb/Logs/Test''"
  "path_join ''/dd/Client-bbb/Logs/Test'' ''Test-Client-1.xcresult''
     = ''/dd/Client-bbb/Logs/Test/Test-Client-1.xcresult''"
  "path_join ''/dd/Client-bbb/Logs/Test'' ''Test-Client-2.xcresult''
     = ''/dd/Client-bbb/Logs/Test/Test-Client-2.xcresult''"
  "path_join ''/dd/Client-bbb/Logs/Test'' ''Run-Other-3.xcresult''
     = ''/dd/Client-bbb/Logs/Test/Run-Other-3.xcresult''"
  by (simp_all add: path_join_def startswith_def endswith_def)

lemma ex_prefix:
  "project_prefix ''Client'' ''Client-aaa''" "project_prefix ''Client'' ''Client-bbb''"
  "scheme_prefix ''Client'' ''Test-Client-1.xcresult''"
  "scheme_prefix ''Client'' ''Test-Client-2.xcresult''"
  "\<not> scheme_prefix ''Client'' ''Run-Other-3.xcresult''"
  "\<not> scheme_prefix ''Missing'' ''Test-Client-1.xcresult''"
  "\<not> scheme_prefix ''Missing'' ''Test-Client-2.xcresult''"
  "\<not> scheme_prefix ''Missing'' ''Run-Other-3.xcresult''"
  by (simp_all add: project_prefix_def scheme_prefix_def startswith_def)

lemma ex_mtime:
  "example_mtime ''/dd/Client-aaa'' = 1" "example_mtime ''/dd/Client-bbb'' = 2"
  "example_mtime ''/dd/Client-bbb/Logs/Test/Test-Client-1.xcresult'' = 3"
  "example_mtime ''/dd/Client-bbb/Logs/Test/Test-Client-2.xcresult'' = 4"
  by (simp_all add: example_mtime_def example_env_def)

theorem bundle_locator_newest_witness:
  "listdir example_env ''/dd'' = Inr [''Client-aaa'', ''Client-bbb''] \<and>
   getmtime example_env ''/dd/Client-aaa'' = Inr 1 \<and>
   getmtime example_env ''/dd/Client-bbb'' = Inr 2 \<and>
   snd (find_project_path example_env ''Client'' :: (unit, string) io) = Inr ''/dd/Client-bbb'' \<and>
   snd (find_xcresult_path example_env ''Client'' ''Client'' :: (unit, string) io)
     = Inr ''/dd/Client-bbb/Logs/Test/Test-Client-2.xcresult'' \<and>
   snd (find_xcresult_path example_env ''Client'' ''Missing'' :: (unit, string) io)
     = Inl LookupError"
proof -
  have ls1: "listdir example_env ''/dd'' = Inr [''Client-aaa'', ''Client-bbb'']"
    by (simp add: example_env_def)
  have g: "getmtime example_env ''/dd/Client-aaa'' = Inr 1"
    "getmtime example_env ''/dd/Client-bbb'' = Inr 2"
    by (simp_all add: example_env_def)
  have mt1: "\<forall>e\<in>set [''Client-aaa'', ''Client-bbb'']. project_prefix ''Client'' e \<longrightarrow>
      getmtime example_env (path_join ''/dd'' e) = Inr (example_mtime (path_join ''/dd'' e))"
    by (simp add: ex_paths ex_mtime g)
  have xp: "''/dd'' = expanduser example_env ''~/Library/Developer/Xcode/DerivedData''"
    by (simp add: example_env_def)
  note t1 = bundle_locator_newest [OF ls1 mt1, where 'f = unit and project = "''Client''"]
  from t1 xp ex_prefix(1) obtain e where e: "e \<in> set [''Client-aaa'', ''Client-bbb'']"
    "snd (find_project_path example_env ''Client'' :: (unit, string) io) = Inr (path_join ''/dd'' e)"
    "\<forall>e'\<in>set [''Client-aaa'', ''Client-bbb'']. project_prefix ''Client'' e' \<longrightarrow>
        example_mtime (path_join ''/dd'' e') \<le> example_mtime (path_join ''/dd'' e)"
    by (metis list.set_intros(1))
  from e(3) ex_prefix(2) have "example_mtime (path_join ''/dd'' ''Client-bbb'')
      \<le> example_mtime (path_join ''/dd'' e)" by simp
  with e(1) have "e = ''Client-bbb''" by (auto simp: ex_paths ex_mtime)
  with e(2) have pp: "snd (find_project_path example_env ''Client'' :: (unit, string) io)
      = Inr ''/dd/Client-bbb''" by (simp add: ex_paths)
  have ls2: "listdir example_env ''/dd/Client-bbb/Logs/Test''
      = Inr [''Test-Client-1.xcresult'', ''Run-Other-3.xcresult'', ''Test-Client-2.xcresult'']"
    by (simp add: example_env_def)
  have g2: "getmtime example_env ''/dd/Client-bbb/Logs/Test/Test-Client-1.xcresult'' = Inr 3"
    "getmtime example_env ''/dd/Client-bbb/Logs/Test/Test-Client-2.xcresult'' = Inr 4"
    by (simp_all add: example_env_def)
  have mt2: "\<forall>e\<in>set [''Test-Client-1.xcresult'', ''Run-Other-3.xcresult'', ''Test-Client-2.xcresult''].
      scheme_prefix ''Client'' e \<longrightarrow>
      getmtime example_env (path_join ''/dd/Client-bbb/Logs/Test'' e)
        = Inr (example_mtime (path_join ''/dd/Client-bbb/Logs/Test'' e))"
    by (simp add: ex_paths ex_mtime ex_prefix g2)
  have bd: "''/dd/Client-bbb/Logs/Test'' = path_join ''/dd/Client-bbb'' ''Logs/Test''"
    by (simp add: ex_paths)
  note t2 = bundle_locator_newest [OF ls2 mt2, where 'f = unit and project = "''Client''"
      and project_path = "''/dd/Client-bbb''" and scheme = "''Client''"]
  from t2 pp bd ex_prefix(3) obtain b where b:
    "b \<in> set [''Test-Client-1.xcresult'', ''Run-Other-3.xcresult'', ''Test-Client-2.xcresult'']"
    "scheme_prefix ''Client'' b"
    "snd (find_xcresult_path example_env ''Client'' ''Client'' :: (unit, string) io)
       = Inr (path_join ''/dd/Client-bbb/Logs/Test'' b)"
    "\<forall>e'\<in>set [''Test-Client-1.xcresult'', ''Run-Other-3.xcresult'', ''Test-Client-2.xcresult''].
        scheme_prefix ''Client'' e' \<longrightarrow>
        example_mtime (path_join ''/dd/Client-bbb/Logs/Test'' e')
          \<le> example_mtime (path_join ''/dd/Client-bbb/Logs/Test'' b)"
    by (metis list.set_intros(1))
  from b(4) ex_prefix(4) have "example_mtime (path_join ''/dd/Client-bbb/Logs/Test'' ''Test-Client-2.xcresult'')
      \<le> example_mtime (path_join ''/dd/Client-bbb/Logs/Test'' b)" by simp
  with b(1,2) have "b = ''Test-Client-2.xcresult''"
    by (auto simp: ex_paths ex_mtime ex_prefix)
  with b(3) have xr: "snd (find_xcresult_path example_env ''Client'' ''Client'' :: (unit, string) io)
      = Inr ''/dd/Client-bbb/Logs/Test/Test-Client-2.xcresult''" by (simp add: ex_paths)
  have mt3: "\<forall>e\<in>set [''Test-Client-1.xcresult'', ''Run-Other-3.xcresult'', ''Test-Client-2.xcresult''].
      scheme_prefix ''Missing'' e \<longrightarrow>
      getmtime example_env (path_join ''/dd/Client-bbb/Logs/Test'' e)
        = Inr (example_mtime (path_join ''/dd/Client-bbb/Logs/Test'' e))"
    by (simp add: ex_prefix)
  have none: "\<not> (\<exists>e\<in>set [''Test-Client-1.xcresult'', ''Run-Other-3.xcresult'', ''Test-Client-2.xcresult''].
      scheme_prefix ''Missing'' e)"
    by (simp add: ex_prefix)
  note t3 = bundle_locator_newest [OF ls2 mt3, where 'f = unit and project = "''Client''"
      and project_path = "''/dd/Client-bbb''" and scheme = "''Missing''"]
  from t3 pp bd have "if \<exists>e\<in>set [''Test-Client-1.xcresult'', ''Run-Other-3.xcresult'', ''Test-Client-2.xcresult''].
        scheme_prefix ''Missing'' e
      then True
      else snd (find_xcresult_path example_env ''Client'' ''Missing'' :: (unit, string) io)
        = Inl LookupError"
    by (auto split: if_splits)
  with none have xm:
    "snd (find_xcresult_path example_env ''Client'' ''Missing'' :: (unit, string) io) = Inl LookupError"
    by (simp only: if_False)
  show ?thesis using ls1 g pp xr xm by simp
qed

section \<open>Properties of the main flow\<close>

text \<open>
  C8. With an empty argument list the program writes the usage text to stdout and exits
  with status 1; the write is its only effect.
\<close>

theorem main_no_arguments:
  "main env rt [] = ([Stdout usage_doc], Inl (SystemExit 1)) \<and>
   exit_status (snd (main env rt [])) = 1"
  by (simp add: main_def io_bind_def io_emit_def io_raise_def)

section \<open>Properties of the metric reader\<close>

lemma then_do_simps [simp]:
  "then_do (Inl e) f = Inl e" "then_do (Inr x) f = f x"
  by (simp_all add: then_do_def)

lemma then_do_Inr_iff: "then_do m f = Inr y \<longleftrightarrow> (\<exists>x. m = Inr x \<and> f x = Inr y)"
  by (cases m) simp_all

lemma summary_loop_iff:
  "summary_loop action acc is = Inr r \<longleftrightarrow>
     (\<exists>rs. r = acc @ rs \<and> list_all2 (\<lambda>i x. walk action (summary_chain i) = Inr x) is rs)"
proof (induction "is" arbitrary: acc)
  case Nil
  then show ?case by auto
next
  case (Cons i "is")
  show ?case
  proof
    assume "summary_loop action acc (i # is) = Inr r"
    then obtain x where x: "walk action (summary_chain i) = Inr x"
      and "summary_loop action (acc @ [x]) is = Inr r"
      by (auto simp: then_do_Inr_iff)
    with Cons.IH [of "acc @ [x]"] obtain rs where "r = (acc @ [x]) @ rs"
      "list_all2 (\<lambda>i x. walk action (summary_chain i) = Inr x) is rs"
      by blast
    with x have "r = acc @ (x # rs) \<and>
        list_all2 (\<lambda>i x. walk action (summary_chain i) = Inr x) (i # is) (x # rs)"
      by simp
    then show "\<exists>rs. r = acc @ rs \<and>
        list_all2 (\<lambda>i x. walk action (summary_chain i) = Inr x) (i # is) rs"
      by blast
  next
    assume "\<exists>rs. r = acc @ rs \<and>
        list_all2 (\<lambda>i x. walk action (summary_chain i) = Inr x) (i # is) rs"
    then obtain rs where r: "r = acc @ rs"
      and l: "list_all2 (\<lambda>i x. walk action (summary_chain i) = Inr x) (i # is) rs"
      by blast
    from l obtain x rs' where rs: "rs = x # rs'" and x: "walk action (summary_chain i) = Inr x"
      and l': "list_all2 (\<lambda>i x. walk action (summary_chain i) = Inr x) is rs'"
      by (auto simp: list_all2_Cons1)
    from r rs l' have "\<exists>rs. r = (acc @ [x]) @ rs \<and>
        list_all2 (\<lambda>i x. walk action (summary_chain i) = Inr x) is rs"
      by auto
    with Cons.IH [of "acc @ [x]"] have "summary_loop action (acc @ [x]) is = Inr r" by blast
    with x show "summary_loop action acc (i # is) = Inr r" by simp
  qed
qed

lemma find_summary_id_result:
  "snd (find_summary_id env rt p tid n) =
     (case snd (xcresulttool_json env rt [JStr ''get'', JStr ''--path'', JStr p, JStr ''--id'', tid]) of
        Inl e \<Rightarrow> Inl e
      | Inr parsed \<Rightarrow>
          (case walk parsed [Key ''summaries'', Key ''_values'', Index 0] of
             Inl e \<Rightarrow> Inl e
           | Inr action \<Rightarrow> summary_loop action [] (py_range n)))"
  by (auto simp: find_summary_id_def snd_io_bind snd_io_simps split: sum.splits)

lemma length_py_range: "length (py_range n) = nat n"
  by (simp add: py_range_def)

lemma nth_py_range: "i < nat n \<Longrightarrow> py_range n ! i = int i"
  by (simp add: py_range_def)

text \<open>
  C2, amended. Whenever \<^verbatim>\<open>find_summary_id\<close> returns, the list has exactly \<open>N\<close> entries
  (none when \<open>N\<close> is negative) and its entry \<open>i\<close> is what the fixed chain of subscripts
  finds at the sub-test \<open>i\<close>. It returns when the tool's document has the summary at
  index 0 and the chain leads to a value for every index below \<open>N\<close>; a count of 3 over
  three sub-tests gives three identifiers. When the chain fails at an index, the
  function raises and returns no list.
\<close>

theorem find_summary_id_count:
  "(snd (find_summary_id env rt p tid n) = Inr r \<longrightarrow>
      length r = nat n \<and>
      (\<exists>parsed action.
         snd (xcresulttool_json env rt [JStr ''get'', JStr ''--path'', JStr p, JStr ''--id'', tid])
           = Inr parsed \<and>
         walk parsed [Key ''summaries'', Key ''_values'', Index 0] = Inr action \<and>
         (\<forall>i<nat n. walk action (summary_chain (int i)) = Inr (r ! i)))) \<and>
   (snd (xcresulttool_json env rt [JStr ''get'', JStr ''--path'', JStr p, JStr ''--id'', tid])
      = Inr parsed \<and>
    walk parsed [Key ''summaries'', Key ''_values'', Index 0] = Inr action \<and>
    (\<forall>i<nat n. walk action (summary_chain (int i)) = Inr (ident i)) \<longrightarrow>
      snd (find_summary_id env rt p tid n) = Inr (map ident [0..<nat n]))"
proof (intro conjI impI)
  assume a: "snd (find_summary_id env rt p tid n) = Inr r"
  then obtain parsed action where
    t: "snd (xcresulttool_json env rt [JStr ''get'', JStr ''--path'', JStr p, JStr ''--id'', tid])
           = Inr parsed"
    and w: "walk parsed [Key ''summaries'', Key ''_values'', Index 0] = Inr action"
    and l: "summary_loop action [] (py_range n) = Inr r"
    unfolding find_summary_id_result by (auto split: sum.splits)
  from l have la: "list_all2 (\<lambda>i x. walk action (summary_chain i) = Inr x) (py_range n) r"
    by (simp add: summary_loop_iff)
  then show len: "length r = nat n"
    using list_all2_lengthD length_py_range by metis
  have "\<forall>i<nat n. walk action (summary_chain (int i)) = Inr (r ! i)"
  proof (intro allI impI)
    fix i assume i: "i < nat n"
    with la length_py_range have "walk action (summary_chain (py_range n ! i)) = Inr (r ! i)"
      by (simp add: list_all2_conv_all_nth)
    with i show "walk action (summary_chain (int i)) = Inr (r ! i)"
      by (simp add: nth_py_range)
  qed
  with t w show "\<exists>parsed action.
         snd (xcresulttool_json env rt [JStr ''get'', JStr ''--path'', JStr p, JStr ''--id'', tid])
           = Inr parsed \<and>
         walk parsed [Key ''summaries'', Key ''_values'', Index 0] = Inr action \<and>
         (\<forall>i<nat n. walk action (summary_chain (int i)) = Inr (r ! i))"
    by blast
next
  assume h: "snd (xcresulttool_json env rt [JStr ''get'', JStr ''--path'', JStr p, JStr ''--id'', tid])
      = Inr parsed \<and>
    walk parsed [Key ''summaries'', Key ''_values'', Index 0] = Inr action \<and>
    (\<forall>i<nat n. walk action (summary_chain (int i)) = Inr (ident i))"
  then have "list_all2 (\<lambda>i x. walk action (summary_chain i) = Inr x)
      (py_range n) (map ident [0..<nat n])"
    by (simp add: list_all2_conv_all_nth length_py_range nth_py_range)
  then have "summary_loop action [] (py_range n) = Inr (map ident [0..<nat n])"
    by (simp add: summary_loop_iff)
  with h show "snd (find_summary_id env rt p tid n) = Inr (map ident [0..<nat n])"
    by (simp add: find_summary_id_result)
qed

theorem find_summary_id_count_witness:
  "snd (xcresulttool_json example_env example_runtime
          [JStr ''get'', JStr ''--path'', JStr ''/dd/one.xcresult'', JStr ''--id'', JStr ''tests-id''])
     = Inr (example_tests_doc one_suite) \<and>
   walk (example_tests_doc one_suite) [Key ''summaries'', Key ''_values'', Index 0]
     = Inr (example_action one_suite) \<and>
   walk (example_action one_suite) (summary_chain 0) = Inr (JStr ''id0'') \<and>
   walk (example_action one_suite) (summary_chain 1) = Inr (JStr ''id1'') \<and>
   walk (example_action one_suite) (summary_chain 2) = Inr (JStr ''id2'') \<and>
   snd (find_summary_id example_env example_runtime ''/dd/one.xcresult'' (JStr ''tests-id'') 3)
     = Inr [JStr ''id0'', JStr ''id1'', JStr ''id2''] \<and>
   length [JStr ''id0'', JStr ''id1'', JStr ''id2'' :: rat json] = nat 3"
proof -
  let ?ident = "\<lambda>i. [JStr ''id0'', JStr ''id1'', JStr ''id2'' :: rat json] ! i"
  have a: "snd (xcresulttool_json example_env example_runtime
          [JStr ''get'', JStr ''--path'', JStr ''/dd/one.xcresult'', JStr ''--id'', JStr ''tests-id''])
     = Inr (example_tests_doc one_suite)"
    by code_simp
  have b: "walk (example_tests_doc one_suite) [Key ''summaries'', Key ''_values'', Index 0]
     = Inr (example_action one_suite)"
    by code_simp
  have c: "walk (example_action one_suite) (summary_chain 0) = Inr (JStr ''id0'')"
    "walk (example_action one_suite) (summary_chain 1) = Inr (JStr ''id1'')"
    "walk (example_action one_suite) (summary_chain 2) = Inr (JStr ''id2'')"
    by code_simp+
  have d: "\<forall>i<nat 3. walk (example_action one_suite) (summary_chain (int i)) = Inr (?ident i)"
  proof (intro allI impI)
    fix i :: nat assume "i < nat 3"
    then have "i = 0 \<or> i = 1 \<or> i = 2" by auto
    with c show "walk (example_action one_suite) (summary_chain (int i)) = Inr (?ident i)"
      by auto
  qed
  have e: "map ?ident [0..<nat 3] = [JStr ''id0'', JStr ''id1'', JStr ''id2'']"
    by code_simp
  note t = find_summary_id_count [of example_env example_runtime "''/dd/one.xcresult''"
      "JStr ''tests-id''" 3 "[JStr ''id0'', JStr ''id1'', JStr ''id2'']"
      "example_tests_doc one_suite" "example_action one_suite" ?ident]
  from t a b d e have f:
    "snd (find_summary_id example_env example_runtime ''/dd/one.xcresult'' (JStr ''tests-id'') 3)
     = Inr [JStr ''id0'', JStr ''id1'', JStr ''id2'']"
    by simp
  with t have g: "length [JStr ''id0'', JStr ''id1'', JStr ''id2'' :: rat json] = nat 3"
    by blast
  from a b c f g show ?thesis by blast
qed

text \<open>
  C2, as stated, fails. The bundle \<^verbatim>\<open>/dd/two.xcresult\<close> of the example reports three
  tests, two in the first suite and one in the second. The chain reads the tests of the
  first suite only, so the index 2 is out of range: \<^verbatim>\<open>find_summary_id\<close> raises
  \<^verbatim>\<open>IndexError\<close> and returns no identifiers.
\<close>

theorem find_summary_id_short:
  "snd (find_test_count example_env example_runtime ''/dd/two.xcresult'') = Inr (JStr ''3'') \<and>
   py_int example_runtime (JStr ''3'') = Inr 3 \<and>
   snd (find_test_id example_env example_runtime ''/dd/two.xcresult'') = Inr (JStr ''tests-id'') \<and>
   snd (find_summary_id example_env example_runtime ''/dd/two.xcresult'' (JStr ''tests-id'') 3)
     = Inl IndexError"
  by code_simp

section \<open>Properties of the metric aggregator\<close>

lemma then_do_Inl_iff: "then_do m f = Inl e \<longleftrightarrow> m = Inl e \<or> (\<exists>x. m = Inr x \<and> f x = Inl e)"
  by (cases m) simp_all

lemma metric_mean_empty:
  assumes "py_get metric ''measurements'' = Inr ms" "py_get ms ''_values'' = Inr vs"
    and "py_iter vs = Inr []"
  shows "metric_mean rt metric = Inl ZeroDivisionError"
  using assms by (simp add: metric_mean_def py_truediv_def)

lemma metric_mean_Inr:
  assumes "metric_mean rt metric = Inr m"
  shows "\<exists>ms vs items. py_get metric ''measurements'' = Inr ms \<and> py_get ms ''_values'' = Inr vs \<and>
     py_iter vs = Inr items \<and> items \<noteq> []"
proof -
  from assms obtain ms vs items s q where
    a: "py_get metric ''measurements'' = Inr ms" "py_get ms ''_values'' = Inr vs"
       "py_iter vs = Inr items" "sum_values rt (PInt 0) items = Inr s"
       "py_truediv rt s (int (length items)) = Inr q"
    unfolding metric_mean_def then_do_Inr_iff by blast
  from a(5) have "items \<noteq> []" by (auto simp: py_truediv_def)
  with a show ?thesis by blast
qed

lemma sum_values_float:
  assumes "\<forall>v\<in>set items. \<exists>x. py_get v ''_value'' = Inr x \<and> py_float rt x = Inr (fv v)"
  shows "sum_values rt (PFloat a) items = Inr (PFloat (foldl (float_add rt) a (map fv items)))"
  using assms by (induction items arbitrary: a) auto

lemma sum_values_start:
  assumes "\<forall>v\<in>set items. \<exists>x. py_get v ''_value'' = Inr x \<and> py_float rt x = Inr (fv v)"
    and "items \<noteq> []" and "float_of_int rt 0 = Some z"
  shows "sum_values rt (PInt 0) items = Inr (PFloat (foldl (float_add rt) z (map fv items)))"
proof (cases items)
  case Nil
  with assms(2) show ?thesis by simp
next
  case (Cons v vs)
  with assms(1) obtain x where x: "py_get v ''_value'' = Inr x" "py_float rt x = Inr (fv v)"
    by auto
  from Cons assms(1) have "\<forall>v\<in>set vs. \<exists>x. py_get v ''_value'' = Inr x \<and> py_float rt x = Inr (fv v)"
    by simp
  from sum_values_float [OF this] x assms(3) Cons show ?thesis by simp
qed

text \<open>
  What \<^verbatim>\<open>metric_mean\<close> appends for a group with at least one measurement value, each
  converting to a float: the values summed from the float of \<open>0\<close>, divided by the float
  of the count, as \<^verbatim>\<open>str\<close> prints the quotient.
\<close>

lemma metric_mean_value:
  assumes "py_get metric ''measurements'' = Inr ms" "py_get ms ''_values'' = Inr vs"
    and "py_iter vs = Inr items" and "items \<noteq> []"
    and "\<forall>v\<in>set items. \<exists>x. py_get v ''_value'' = Inr x \<and> py_float rt x = Inr (fv v)"
    and "float_of_int rt 0 = Some z" and "float_of_int rt (int (length items)) = Some n"
  shows "metric_mean rt metric
     = Inr (float_str rt (float_div rt (foldl (float_add rt) z (map fv items)) n))"
  using assms sum_values_start [OF assms(5,4,6)]
  by (simp add: metric_mean_def py_truediv_def)

lemma collect_metrics_iff:
  "collect_metrics rt groups result = Inr r \<longleftrightarrow>
     (\<exists>ms. r = result @ map JStr ms \<and> list_all2 (\<lambda>g m. metric_mean rt g = Inr m) groups ms)"
proof (induction groups arbitrary: result)
  case Nil
  then show ?case by auto
next
  case (Cons g groups)
  show ?case
  proof
    assume "collect_metrics rt (g # groups) result = Inr r"
    then obtain m where m: "metric_mean rt g = Inr m"
      and "collect_metrics rt groups (result @ [JStr m]) = Inr r"
      by (auto simp: then_do_Inr_iff)
    with Cons.IH [of "result @ [JStr m]"] obtain ms where "r = (result @ [JStr m]) @ map JStr ms"
      "list_all2 (\<lambda>g m. metric_mean rt g = Inr m) groups ms"
      by blast
    with m have "r = result @ map JStr (m # ms) \<and>
        list_all2 (\<lambda>g m. metric_mean rt g = Inr m) (g # groups) (m # ms)"
      by simp
    then show "\<exists>ms. r = result @ map JStr ms \<and>
        list_all2 (\<lambda>g m. metric_mean rt g = Inr m) (g # groups) ms"
      by blast
  next
    assume "\<exists>ms. r = result @ map JStr ms \<and>
        list_all2 (\<lambda>g m. metric_mean rt g = Inr m) (g # groups) ms"
    then obtain ms where r: "r = result @ map JStr ms"
      and l: "list_all2 (\<lambda>g m. metric_mean rt g = Inr m) (g # groups) ms"
      by blast
    from l obtain m ms' where ms: "ms = m # ms'" and m: "metric_mean rt g = Inr m"
      and l': "list_all2 (\<lambda>g m. metric_mean rt g = Inr m) groups ms'"
      by (auto simp: list_all2_Cons1)
    from r ms l' have "\<exists>ms. r = (result @ [JStr m]) @ map JStr ms \<and>
        list_all2 (\<lambda>g m. metric_mean rt g = Inr m) groups ms"
      by auto
    with Cons.IH [of "result @ [JStr m]"]
    have "collect_metrics rt groups (result @ [JStr m]) = Inr r" by blast
    with m show "collect_metrics rt (g # groups) result = Inr r" by simp
  qed
qed

lemma list_all2_ex: "list_all2 P xs ys \<Longrightarrow> \<forall>x\<in>set xs. \<exists>y. P x y"
  by (induction rule: list_all2_induct) auto

lemma collect_metrics_ok:
  assumes "\<forall>g\<in>set groups. metric_mean rt g = Inr (mean g)"
  shows "collect_metrics rt groups result = Inr (result @ map JStr (map mean groups))"
proof -
  from assms have "list_all2 (\<lambda>g m. metric_mean rt g = Inr m) groups (map mean groups)"
    by (simp add: list_all2_conv_all_nth)
  then show ?thesis unfolding collect_metrics_iff by blast
qed

lemma collect_metrics_fail:
  assumes "\<forall>g\<in>set ok. \<exists>m. metric_mean rt g = Inr m" and "metric_mean rt g = Inl e"
  shows "collect_metrics rt (ok @ g # rest) result = Inl e"
  using assms by (induction ok arbitrary: result) auto

lemma collect_log_output_parts:
  assumes "py_get activity_log ''identifier'' = Inr tn"
    and "truthy rt tn \<longrightarrow> py_getitem tn (Key ''_value'') = Inr nm"
    and "py_get activity_log ''duration'' = Inr du"
    and "truthy rt du \<longrightarrow> py_getitem du (Key ''_value'') = Inr d \<and> py_float rt d = Inr fd"
    and "py_get activity_log ''performanceMetrics'' = Inr pm" and "pm \<noteq> JNull"
    and "py_get pm ''_values'' = Inr ms" and "py_iter ms = Inr groups"
  shows "collect_log_output rt activity_log result =
     collect_metrics rt groups
       (result @ (if truthy rt tn then [nm] else []) @
          (if truthy rt du then [JStr (format_2f rt fd)] else []))"
  using assms by (cases pm) (simp_all add: collect_log_output_def)

lemma as_strings_map: "as_strings (map JStr ss) = Some ss"
  by (induction ss) simp_all

lemma py_join_strings: "py_join sep (map JStr ss) = Inr (join_strings sep ss)"
  by (simp add: py_join_def as_strings_map)

lemma export_log_result:
  "snd (export_log env rt p sid) =
     (case snd (xcresulttool_json env rt [JStr ''get'', JStr ''--path'', JStr p, JStr ''--id'', sid]) of
        Inl e \<Rightarrow> Inl e
      | Inr contents \<Rightarrow> then_do (collect_log_output rt contents []) (py_join '',''))"
  by (auto simp: export_log_def snd_io_bind snd_io_simps split: sum.splits)


text \<open>
  C9. A metric group whose list of measurement values is empty makes the division by
  the count raise \<^verbatim>\<open>ZeroDivisionError\<close>: in \<^verbatim>\<open>metric_mean\<close>, in the loop over the groups
  when the groups before it have means, and in \<^verbatim>\<open>collect_log_output\<close> when the name and
  the duration are read without error. And when \<^verbatim>\<open>collect_log_output\<close> returns for a
  document with metric groups, every group has at least one measurement value.
\<close>

theorem empty_measurements_raise:
  "(py_get metric ''measurements'' = Inr ms \<and> py_get ms ''_values'' = Inr vs \<and>
     py_iter vs = Inr [] \<longrightarrow>
       metric_mean rt metric = Inl ZeroDivisionError \<and>
       ((\<forall>g\<in>set ok. \<exists>m. metric_mean rt g = Inr m) \<longrightarrow>
          collect_metrics rt (ok @ metric # rest) result = Inl ZeroDivisionError \<and>
          (py_get activity_log ''identifier'' = Inr tn \<and>
           (truthy rt tn \<longrightarrow> py_getitem tn (Key ''_value'') = Inr nm) \<and>
           py_get activity_log ''duration'' = Inr du \<and>
           (truthy rt du \<longrightarrow> py_getitem du (Key ''_value'') = Inr d \<and> py_float rt d = Inr fd) \<and>
           py_get activity_log ''performanceMetrics'' = Inr pm \<and> pm \<noteq> JNull \<and>
           py_get pm ''_values'' = Inr gs \<and> py_iter gs = Inr (ok @ metric # rest) \<longrightarrow>
             collect_log_output rt activity_log result = Inl ZeroDivisionError))) \<and>
   (collect_log_output rt log' result = Inr r \<and>
    py_get log' ''performanceMetrics'' = Inr pm' \<and> pm' \<noteq> JNull \<and>
    py_get pm' ''_values'' = Inr gs' \<and> py_iter gs' = Inr groups \<longrightarrow>
      (\<forall>g\<in>set groups. \<exists>ms vs items.
          py_get g ''measurements'' = Inr ms \<and> py_get ms ''_values'' = Inr vs \<and>
          py_iter vs = Inr items \<and> items \<noteq> []))"
proof (intro conjI impI)
  assume e: "py_get metric ''measurements'' = Inr ms \<and> py_get ms ''_values'' = Inr vs \<and>
     py_iter vs = Inr []"
  then show z: "metric_mean rt metric = Inl ZeroDivisionError"
    by (simp add: metric_mean_empty)
  assume ok: "\<forall>g\<in>set ok. \<exists>m. metric_mean rt g = Inr m"
  from ok z show c: "collect_metrics rt (ok @ metric # rest) result = Inl ZeroDivisionError"
    by (rule collect_metrics_fail)
  assume d: "py_get activity_log ''identifier'' = Inr tn \<and>
           (truthy rt tn \<longrightarrow> py_getitem tn (Key ''_value'') = Inr nm) \<and>
           py_get activity_log ''duration'' = Inr du \<and>
           (truthy rt du \<longrightarrow> py_getitem du (Key ''_value'') = Inr d \<and> py_float rt d = Inr fd) \<and>
           py_get activity_log ''performanceMetrics'' = Inr pm \<and> pm \<noteq> JNull \<and>
           py_get pm ''_values'' = Inr gs \<and> py_iter gs = Inr (ok @ metric # rest)"
  then have "collect_log_output rt activity_log result =
     collect_metrics rt (ok @ metric # rest)
       (result @ (if truthy rt tn then [nm] else []) @
          (if truthy rt du then [JStr (format_2f rt fd)] else []))"
    by (intro collect_log_output_parts) blast+
  also have "\<dots> = Inl ZeroDivisionError"
    using ok z by (rule collect_metrics_fail)
  finally show "collect_log_output rt activity_log result = Inl ZeroDivisionError" .
next
  assume a: "collect_log_output rt log' result = Inr r \<and>
    py_get log' ''performanceMetrics'' = Inr pm' \<and> pm' \<noteq> JNull \<and>
    py_get pm' ''_values'' = Inr gs' \<and> py_iter gs' = Inr groups"
  then obtain r2 where "collect_metrics rt groups r2 = Inr r"
    by (cases pm') (auto simp: collect_log_output_def then_do_Inr_iff)
  then obtain ms where "list_all2 (\<lambda>g m. metric_mean rt g = Inr m) groups ms"
    unfolding collect_metrics_iff by blast
  then have m: "\<forall>g\<in>set groups. \<exists>m. metric_mean rt g = Inr m"
    by (rule list_all2_ex)
  show "\<forall>g\<in>set groups. \<exists>ms vs items.
          py_get g ''measurements'' = Inr ms \<and> py_get ms ''_values'' = Inr vs \<and>
          py_iter vs = Inr items \<and> items \<noteq> []"
  proof
    fix g assume "g \<in> set groups"
    with m obtain m' where "metric_mean rt g = Inr m'" by blast
    then show "\<exists>ms vs items.
          py_get g ''measurements'' = Inr ms \<and> py_get ms ''_values'' = Inr vs \<and>
          py_iter vs = Inr items \<and> items \<noteq> []"
      by (rule metric_mean_Inr)
  qed
qed

lemma example_means:
  "metric_mean example_runtime (example_group [''1.0'', ''2.0'', ''3.0'']) = Inr ''2.0''"
  "metric_mean example_runtime (example_group [''3.0'']) = Inr ''3.0''"
  by code_simp+


theorem empty_measurements_raise_witness:
  "py_get (example_group []) ''measurements'' = Inr (json_values []) \<and>
   py_get (json_values [] :: rat json) ''_values'' = Inr (JArr []) \<and>
   py_iter (JArr [] :: rat json) = Inr [] \<and>
   metric_mean example_runtime (example_group []) = Inl ZeroDivisionError \<and>
   metric_mean example_runtime (example_group [''1.0'', ''2.0'', ''3.0'']) = Inr ''2.0'' \<and>
   collect_log_output example_runtime
     (example_log_doc [example_group [''1.0'', ''2.0'', ''3.0''], example_group []]) []
     = Inl ZeroDivisionError \<and>
   collect_log_output example_runtime
     (example_log_doc [example_group [''1.0'', ''2.0'', ''3.0''], example_group [''3.0'']]) []
     = Inr [JStr ''PerfTests/testStartup()'', JStr ''0.50'', JStr ''2.0'', JStr ''3.0''] \<and>
   (\<exists>ms vs items. py_get (example_group [''3.0'']) ''measurements'' = Inr ms \<and>
      py_get ms ''_values'' = Inr vs \<and> py_iter vs = Inr items \<and> items \<noteq> [])"
proof -
  let ?g1 = "example_group [''1.0'', ''2.0'', ''3.0'']" and ?g2 = "example_group [''3.0'']"
  let ?g0 = "example_group []"
  let ?bad = "example_log_doc [?g1, ?g0]" and ?good = "example_log_doc [?g1, ?g2]"
  let ?tn = "json_value (JStr ''PerfTests/testStartup()'') :: rat json"
  let ?du = "json_value (JStr ''0.5'') :: rat json"
  have a: "py_get ?g0 ''measurements'' = Inr (json_values [])"
    "py_get (json_values [] :: rat json) ''_values'' = Inr (JArr [])"
    "py_iter (JArr [] :: rat json) = Inr []"
    by code_simp+
  have ok: "\<forall>g\<in>set [?g1]. \<exists>m. metric_mean example_runtime g = Inr m"
    by (simp add: example_means)
  have b: "py_get ?bad ''identifier'' = Inr ?tn"
    "truthy example_runtime ?tn \<longrightarrow> py_getitem ?tn (Key ''_value'') = Inr (JStr ''PerfTests/testStartup()'')"
    "py_get ?bad ''duration'' = Inr ?du"
    "py_get ?bad ''performanceMetrics'' = Inr (json_values [?g1, ?g0])"
    "py_get (json_values [?g1, ?g0]) ''_values'' = Inr (JArr [?g1, ?g0])"
    "py_iter (JArr [?g1, ?g0]) = Inr ([?g1] @ ?g0 # [])"
    by code_simp+
  have b': "truthy example_runtime ?du \<longrightarrow>
      py_getitem ?du (Key ''_value'') = Inr (JStr ''0.5'') \<and>
      py_float example_runtime (JStr ''0.5'') = Inr (1 / 2)"
    by (simp add: example_runtime_def json_value_def)
  have nn: "json_values [?g1, ?g0] \<noteq> JNull" "json_values [?g1, ?g2] \<noteq> JNull"
    by (simp_all add: json_values_def)
  have c: "collect_log_output example_runtime ?good []
     = Inr [JStr ''PerfTests/testStartup()'', JStr ''0.50'', JStr ''2.0'', JStr ''3.0'']"
    "py_get ?good ''performanceMetrics'' = Inr (json_values [?g1, ?g2])"
    "py_get (json_values [?g1, ?g2]) ''_values'' = Inr (JArr [?g1, ?g2])"
    "py_iter (JArr [?g1, ?g2]) = Inr [?g1, ?g2]"
    by code_simp+
  note t = empty_measurements_raise [where metric = ?g0 and ms = "json_values []" and vs = "JArr []"
      and rt = example_runtime and ok = "[?g1]" and rest = "[]" and result = "[]"
      and activity_log = ?bad and tn = ?tn and nm = "JStr ''PerfTests/testStartup()''"
      and du = ?du and d = "JStr ''0.5''" and fd = "1 / 2" and pm = "json_values [?g1, ?g0]"
      and gs = "JArr [?g1, ?g0]" and log' = ?good
      and r = "[JStr ''PerfTests/testStartup()'', JStr ''0.50'', JStr ''2.0'', JStr ''3.0'']"
      and pm' = "json_values [?g1, ?g2]" and gs' = "JArr [?g1, ?g2]" and groups = "[?g1, ?g2]"]
  from t a have z: "metric_mean example_runtime ?g0 = Inl ZeroDivisionError"
    by blast
  from t a ok b b' nn(1) have e: "collect_log_output example_runtime ?bad [] = Inl ZeroDivisionError"
    by blast
  from t c nn(2) have "\<forall>g\<in>set [?g1, ?g2]. \<exists>ms vs items.
          py_get g ''measurements'' = Inr ms \<and> py_get ms ''_values'' = Inr vs \<and>
          py_iter vs = Inr items \<and> items \<noteq> []"
    by blast
  then have g: "\<exists>ms vs items. py_get ?g2 ''measurements'' = Inr ms \<and>
      py_get ms ''_values'' = Inr vs \<and> py_iter vs = Inr items \<and> items \<noteq> []"
    by simp
  from a z example_means(1) e c(1) g show ?thesis by blast
qed

section \<open>Properties of the label mapping\<close>

lemma dict_setitem_new: "k \<notin> fst ` set d \<Longrightarrow> dict_setitem d k v = d @ [(k, v)]"
  by (induction d) auto

lemma py_dict_fold:
  "distinct (map fst (acc @ ps)) \<Longrightarrow>
     foldl (\<lambda>d kv. dict_setitem d (fst kv) (snd kv)) acc ps = acc @ ps"
proof (induction ps arbitrary: acc)
  case Nil
  then show ?case by simp
next
  case (Cons p ps)
  from Cons.prems have "fst p \<notin> fst ` set acc" by auto
  then have "dict_setitem acc (fst p) (snd p) = acc @ [p]"
    by (simp add: dict_setitem_new)
  moreover from Cons.prems have "distinct (map fst ((acc @ [p]) @ ps))" by simp
  ultimately show ?case using Cons.IH [of "acc @ [p]"] by simp
qed

lemma py_dict_distinct: "distinct (map fst ps) \<Longrightarrow> py_dict ps = ps"
  using py_dict_fold [of "[]" ps] by (simp add: py_dict_def)

lemma distinct_defaultValues: "distinct defaultValues"
  by (simp add: defaultValues_def)

lemma length_defaultValues: "length defaultValues = 9"
  by (simp add: defaultValues_def)

lemma zip_as_map: "zip xs ys = map (\<lambda>i. (xs ! i, ys ! i)) [0..<min (length xs) (length ys)]"
  by (rule nth_equalityI) auto

lemma dictOfData_zip: "dictOfData s = zip defaultValues (py_split CHR '','' s)"
proof -
  have "distinct (map fst (zip defaultValues (py_split CHR '','' s)))"
    using distinct_defaultValues by (simp add: map_fst_zip_take distinct_take)
  then show ?thesis by (simp add: dictOfData_def py_dict_distinct)
qed

lemma py_split_nonempty: "py_split c s \<noteq> []"
  by (induction s) (auto split: list.splits)

lemma py_split_no_sep: "c \<notin> set x \<Longrightarrow> py_split c x = [x]"
  by (induction x) auto

lemma py_split_append: "c \<notin> set x \<Longrightarrow> py_split c (x @ c # rest) = x # py_split c rest"
  by (induction x) (auto split: list.splits)

lemma split_join:
  "items \<noteq> [] \<Longrightarrow> \<forall>f\<in>set items. c \<notin> set f \<Longrightarrow>
     py_split c (join_strings [c] items) = items"
proof (induction "[c]" items rule: join_strings.induct)
  case 1
  then show ?case by simp
next
  case (2 x)
  then show ?case by (simp add: py_split_no_sep)
next
  case (3 x y ys)
  then show ?case by (simp add: py_split_append)
qed

lemma main_loop_single:
  assumes "export_log env rt p sid = (ev1, Inr lg)"
    and "find_device_info env rt p = (ev2, Inr (JStr dev))"
  shows "main_loop env rt p [sid] acc =
     (ev1 @ ev2 @ [Stdout (dev @ '','' @ lg @ ''\<newline>''), PrintDict (dictOfData lg)],
      Inr (acc @ [dictOfData lg]))"
  using assms by (simp add: io_bind_def io_lift_def io_emit_def io_return_def)

text \<open>
  C5. For every string, the dictionary that \<^verbatim>\<open>main\<close> builds from it (split on commas,
  zip with the label list, \<^verbatim>\<open>dict\<close>) is the mapping of the specification: the pieces
  paired position by position with the labels, as many pairs as the shorter of the two
  has. In the loop of \<^verbatim>\<open>main\<close> this mapping is what is printed and what is collected
  for a summary whose log is the string. When the string is the comma-join of a
  non-empty list of fields without commas, the mapping pairs the labels with these
  fields.
\<close>

theorem label_mapping_round_trip:
  "dictOfData s = spec_label_mapping s \<and>
   length (dictOfData s) = min (length defaultValues) (length (py_split CHR '','' s)) \<and>
   map fst (dictOfData s) = take (length (py_split CHR '','' s)) defaultValues \<and>
   map snd (dictOfData s) = take (length defaultValues) (py_split CHR '','' s) \<and>
   (export_log env rt p sid = (ev1, Inr s) \<and> find_device_info env rt p = (ev2, Inr (JStr dev)) \<longrightarrow>
      main_loop env rt p [sid] acc =
        (ev1 @ ev2 @ [Stdout (dev @ '','' @ s @ ''\<newline>''), PrintDict (spec_label_mapping s)],
         Inr (acc @ [spec_label_mapping s]))) \<and>
   (items \<noteq> [] \<and> (\<forall>f\<in>set items. CHR '','' \<notin> set f) \<longrightarrow>
      dictOfData (join_strings '','' items) = zip defaultValues items)"
proof (intro conjI impI)
  show eq: "dictOfData s = spec_label_mapping s"
    unfolding dictOfData_zip spec_label_mapping_def Let_def by (rule zip_as_map)
  show "length (dictOfData s) = min (length defaultValues) (length (py_split CHR '','' s))"
    by (simp add: dictOfData_zip)
  show "map fst (dictOfData s) = take (length (py_split CHR '','' s)) defaultValues"
    unfolding dictOfData_zip by (simp add: map_fst_zip_take min_def)
  show "map snd (dictOfData s) = take (length defaultValues) (py_split CHR '','' s)"
    unfolding dictOfData_zip by (simp add: map_snd_zip_take min_def)
  assume "export_log env rt p sid = (ev1, Inr s) \<and> find_device_info env rt p = (ev2, Inr (JStr dev))"
  then have "main_loop env rt p [sid] acc =
     (ev1 @ ev2 @ [Stdout (dev @ '','' @ s @ ''\<newline>''), PrintDict (dictOfData s)],
      Inr (acc @ [dictOfData s]))"
    by (intro main_loop_single) simp_all
  then show "main_loop env rt p [sid] acc =
        (ev1 @ ev2 @ [Stdout (dev @ '','' @ s @ ''\<newline>''), PrintDict (spec_label_mapping s)],
         Inr (acc @ [spec_label_mapping s]))"
    by (simp only: eq)
next
  assume "items \<noteq> [] \<and> (\<forall>f\<in>set items. CHR '','' \<notin> set f)"
  then have "py_split CHR '','' (join_strings '','' items) = items"
    using split_join [of items "CHR '',''"] by simp
  then show "dictOfData (join_strings '','' items) = zip defaultValues items"
    by (simp add: dictOfData_zip)
qed

theorem label_mapping_round_trip_witness:
  "snd (export_log example_env example_runtime ''/dd/one.xcresult'' (JStr ''id0''))
     = Inr ''PerfTests/testStartup(),0.50,2.0,3.0'' \<and>
   snd (find_device_info example_env example_runtime ''/dd/one.xcresult'')
     = Inr (JStr ''com.apple.iphone-simulator'') \<and>
   snd (main_loop example_env example_runtime ''/dd/one.xcresult'' [JStr ''id0''] [])
     = Inr [[(''testName'', ''PerfTests/testStartup()''), (''Duration'', ''0.50''),
             (''Disk Local Writes'', ''2.0''), (''Clock Monotonic Time'', ''3.0'')]] \<and>
   last (fst (main_loop example_env example_runtime ''/dd/one.xcresult'' [JStr ''id0''] []))
     = PrintDict [(''testName'', ''PerfTests/testStartup()''), (''Duration'', ''0.50''),
             (''Disk Local Writes'', ''2.0''), (''Clock Monotonic Time'', ''3.0'')] \<and>
   join_strings '','' [''PerfTests/testStartup()'', ''0.50'', ''2.0'', ''3.0'']
     = ''PerfTests/testStartup(),0.50,2.0,3.0'' \<and>
   dictOfData ''PerfTests/testStartup(),0.50,2.0,3.0''
     = zip defaultValues [''PerfTests/testStartup()'', ''0.50'', ''2.0'', ''3.0'']"
proof -
  let ?s = "''PerfTests/testStartup(),0.50,2.0,3.0''"
  let ?items = "[''PerfTests/testStartup()'', ''0.50'', ''2.0'', ''3.0'']"
  let ?e = "export_log example_env example_runtime ''/dd/one.xcresult'' (JStr ''id0'')"
  let ?d = "find_device_info example_env example_runtime ''/dd/one.xcresult''"
  have a: "snd ?e = Inr ?s" by code_simp
  have b: "snd ?d = Inr (JStr ''com.apple.iphone-simulator'')" by code_simp
  from a have a': "?e = (fst ?e, Inr ?s)" by (simp add: prod_eq_iff)
  from b have b': "?d = (fst ?d, Inr (JStr ''com.apple.iphone-simulator''))" by (simp add: prod_eq_iff)
  have c: "?items \<noteq> [] \<and> (\<forall>f\<in>set ?items. CHR '','' \<notin> set f)" by simp
  have j: "join_strings '','' ?items = ?s" by simp
  have m: "spec_label_mapping ?s
      = [(''testName'', ''PerfTests/testStartup()''), (''Duration'', ''0.50''),
         (''Disk Local Writes'', ''2.0''), (''Clock Monotonic Time'', ''3.0'')]"
    by code_simp
  note t = label_mapping_round_trip [where s = ?s and env = example_env and rt = example_runtime
      and p = "''/dd/one.xcresult''" and sid = "JStr ''id0''" and ?ev1.0 = "fst ?e"
      and ?ev2.0 = "fst ?d" and dev = "''com.apple.iphone-simulator''" and acc = "[]"
      and items = ?items]
  from t a' b' have r: "main_loop example_env example_runtime ''/dd/one.xcresult'' [JStr ''id0''] [] =
        (fst ?e @ fst ?d @ [Stdout (''com.apple.iphone-simulator'' @ '','' @ ?s @ ''\<newline>''),
            PrintDict (spec_label_mapping ?s)],
         Inr ([] @ [spec_label_mapping ?s]))"
    by blast
  from r m have r1: "snd (main_loop example_env example_runtime ''/dd/one.xcresult'' [JStr ''id0''] [])
     = Inr [[(''testName'', ''PerfTests/testStartup()''), (''Duration'', ''0.50''),
             (''Disk Local Writes'', ''2.0''), (''Clock Monotonic Time'', ''3.0'')]]"
    by simp
  from r m have r2: "last (fst (main_loop example_env example_runtime ''/dd/one.xcresult'' [JStr ''id0''] []))
     = PrintDict [(''testName'', ''PerfTests/testStartup()''), (''Duration'', ''0.50''),
             (''Disk Local Writes'', ''2.0''), (''Clock Monotonic Time'', ''3.0'')]"
    by simp
  from t c j have z: "dictOfData ?s = zip defaultValues ?items"
    by metis
  from a b r1 r2 j z show ?thesis by blast
qed

end
